theory Spec2Isabelle
  imports Main "HOL-Library.Char_ord" "HOL-Library.List_Lexorder" "HOL-Library.Sublist"
begin

section \<open>Python values\<close>

text \<open>
  The checker is Python: the values that flow through it (the decoded JSON body of the
  vendor API, \<^verbatim>\<open>None\<close>, version strings) are dynamically typed.  They are modelled
  by one datatype.  \<open>JNull\<close> is \<^verbatim>\<open>None\<close>, a dict is an association list read with
  \<open>map_of\<close>.  JSON numbers are integers here (the timestamps of the API are epoch
  milliseconds); floating point numbers are left out.  A string is a list of
  characters, and a character stands for the code point of its number, U+0000 to U+00FF;
  strings with other code points are outside the model.  Strings are compared by
  character code, as Python compares code points.
\<close>

datatype json =
    JNull
  | JBool bool
  | JNum int
  | JStr string
  | JArr "json list"
  | JObj "(string \<times> json) list"

text \<open>
  The exceptions that the modelled code can raise.  \<open>AttributeError ty attr\<close> is
  \<^verbatim>\<open>'ty' object has no attribute 'attr'\<close>; \<open>RequestException\<close> is any failure of
  an HTTP call, \<open>JSONDecodeError\<close> a body that \<^verbatim>\<open>response.json()\<close> rejects.  All of
  them derive from \<^verbatim>\<open>Exception\<close>, so \<^verbatim>\<open>except Exception\<close> and a bare \<^verbatim>\<open>except\<close>
  catch the same; an interrupt of the process is not modelled.
\<close>

datatype exn =
    TypeError
  | KeyError
  | IndexError
  | ValueError
  | AttributeError string string
  | RequestException
  | JSONDecodeError

text \<open>Truth value testing (\<^verbatim>\<open>if x:\<close>, \<^verbatim>\<open>not x\<close>).\<close>

fun truthy :: "json \<Rightarrow> bool" where
  "truthy JNull = False"
| "truthy (JBool b) = b"
| "truthy (JNum n) = (n \<noteq> 0)"
| "truthy (JStr s) = (s \<noteq> [])"
| "truthy (JArr xs) = (xs \<noteq> [])"
| "truthy (JObj kvs) = (kvs \<noteq> [])"

text \<open>\<^verbatim>\<open>type(x).__name__\<close>, as it appears in the text of an AttributeError.\<close>

fun type_name :: "json \<Rightarrow> string" where
  "type_name JNull = ''NoneType''"
| "type_name (JBool b) = ''bool''"
| "type_name (JNum n) = ''int''"
| "type_name (JStr s) = ''str''"
| "type_name (JArr xs) = ''list''"
| "type_name (JObj kvs) = ''dict''"

section \<open>String operations\<close>

text \<open>
  \<^verbatim>\<open>str.lower()\<close> on the code points up to U+00FF: the letters A-Z move to a-z, the
  letters U+00C0 to U+00DE, without the sign U+00D7, move up by 32 to U+00E0 to U+00FE,
  and every other character stays.
\<close>

definition upper_letters :: string where
  "upper_letters =
     ''ABCDEFGHIJKLMNOPQRSTUVWXYZ'' @
       [CHR 0xC0, CHR 0xC1, CHR 0xC2, CHR 0xC3, CHR 0xC4, CHR 0xC5, CHR 0xC6, CHR 0xC7,
        CHR 0xC8, CHR 0xC9, CHR 0xCA, CHR 0xCB, CHR 0xCC, CHR 0xCD, CHR 0xCE, CHR 0xCF,
        CHR 0xD0, CHR 0xD1, CHR 0xD2, CHR 0xD3, CHR 0xD4, CHR 0xD5, CHR 0xD6, CHR 0xD8,
        CHR 0xD9, CHR 0xDA, CHR 0xDB, CHR 0xDC, CHR 0xDD, CHR 0xDE]"

definition lower_letters :: string where
  "lower_letters =
     ''abcdefghijklmnopqrstuvwxyz'' @
       [CHR 0xE0, CHR 0xE1, CHR 0xE2, CHR 0xE3, CHR 0xE4, CHR 0xE5, CHR 0xE6, CHR 0xE7,
        CHR 0xE8, CHR 0xE9, CHR 0xEA, CHR 0xEB, CHR 0xEC, CHR 0xED, CHR 0xEE, CHR 0xEF,
        CHR 0xF0, CHR 0xF1, CHR 0xF2, CHR 0xF3, CHR 0xF4, CHR 0xF5, CHR 0xF6, CHR 0xF8,
        CHR 0xF9, CHR 0xFA, CHR 0xFB, CHR 0xFC, CHR 0xFD, CHR 0xFE]"

definition lower_char :: "char \<Rightarrow> char" where
  "lower_char c =
     (case map_of (zip upper_letters lower_letters) c of
        None \<Rightarrow> c
      | Some l \<Rightarrow> l)"

definition lower :: "string \<Rightarrow> string" where
  "lower s = map lower_char s"

text \<open>
  \<^verbatim>\<open>s.replace(old, new)\<close> for a one-character \<open>old\<close>, the only form the checker
  uses: every occurrence is replaced, left to right.
\<close>

fun replace :: "char \<Rightarrow> string \<Rightarrow> string \<Rightarrow> string" where
  "replace old new [] = []"
| "replace old new (c # cs) =
     (if c = old then new @ replace old new cs else c # replace old new cs)"

text \<open>
  \<^verbatim>\<open>s.split(sep, 1)\<close> for a one-character separator: at most one split, at the first
  occurrence; the list has two elements when \<open>sep\<close> occurs and one otherwise.
\<close>

fun split1 :: "char \<Rightarrow> string \<Rightarrow> string list" where
  "split1 sep [] = [[]]"
| "split1 sep (c # cs) =
     (if c = sep then [[], cs]
      else (case split1 sep cs of
              [] \<Rightarrow> [[c]]
            | h # t \<Rightarrow> (c # h) # t))"

text \<open>\<^verbatim>\<open>s.split(sep)\<close> for a one-character separator: split at every occurrence.\<close>

fun split_all :: "char \<Rightarrow> string \<Rightarrow> string list" where
  "split_all sep [] = [[]]"
| "split_all sep (c # cs) =
     (if c = sep then [] # split_all sep cs
      else (case split_all sep cs of
              [] \<Rightarrow> [[c]]
            | h # t \<Rightarrow> (c # h) # t))"

section \<open>The version library\<close>

text \<open>
  Modelled from the spec: \<^verbatim>\<open>packaging.version\<close> is an external library, not part of
  the repository.  Section 4.2 of the specification describes what the checker relies
  on: \<^verbatim>\<open>version.parse\<close> reads a dotted numeric release identifier and fails on a
  non-numeric component, an empty string or a malformed structure.  \<open>version_parse\<close>
  returns the release tuple, \<open>None\<close> where the library raises.
\<close>

definition is_digit :: "char \<Rightarrow> bool" where
  "is_digit c = (let n = (of_char c :: nat) in 48 \<le> n \<and> n \<le> 57)"

definition digit_val :: "char \<Rightarrow> nat" where
  "digit_val c = of_char c - 48"

definition digits_to_nat :: "string \<Rightarrow> nat" where
  "digits_to_nat s = foldl (\<lambda>acc c. 10 * acc + digit_val c) 0 s"

definition is_number :: "string \<Rightarrow> bool" where
  "is_number s = (s \<noteq> [] \<and> list_all is_digit s)"

definition version_parse :: "string \<Rightarrow> nat list option" where
  "version_parse s =
     (let parts = split_all (CHR ''.'') s
      in if list_all is_number parts then Some (map digits_to_nat parts) else None)"

text \<open>
  The library orders two versions by their comparison keys: the release tuple with its
  trailing zeros dropped, compared as Python compares tuples (at the first position
  where the two differ; a proper prefix is the smaller one).
\<close>

definition cmpkey :: "nat list \<Rightarrow> nat list" where
  "cmpkey release = rev (dropWhile (\<lambda>x. x = 0) (rev release))"

fun tuple_gt :: "nat list \<Rightarrow> nat list \<Rightarrow> bool" where
  "tuple_gt [] ys = False"
| "tuple_gt (x # xs) [] = True"
| "tuple_gt (x # xs) (y # ys) = (if x = y then tuple_gt xs ys else x > y)"

text \<open>
  What \<^verbatim>\<open>parse_version_string\<close> returns: a \<^verbatim>\<open>Version\<close> object of the library, or a
  plain \<^verbatim>\<open>str\<close>.
\<close>

datatype comparable = Version (release: "nat list") | Str string

fun is_str :: "comparable \<Rightarrow> bool" where
  "is_str (Str s) = True"
| "is_str (Version r) = False"

text \<open>\<^verbatim>\<open>a > b\<close> and \<^verbatim>\<open>a == b\<close> on two \<^verbatim>\<open>Version\<close> objects.\<close>

definition version_gt :: "nat list \<Rightarrow> nat list \<Rightarrow> bool" where
  "version_gt a b = tuple_gt (cmpkey a) (cmpkey b)"

definition version_eq :: "nat list \<Rightarrow> nat list \<Rightarrow> bool" where
  "version_eq a b = (cmpkey a = cmpkey b)"

text \<open>
  The comparison in the words of the specification: the components are compared from
  left to right as numbers, and the shorter sequence is padded with zeros.
\<close>

datatype ordering = LT | EQ | GT

fun padded_cmp :: "nat list \<Rightarrow> nat list \<Rightarrow> ordering" where
  "padded_cmp [] [] = EQ"
| "padded_cmp (x # xs) [] = (if 0 < x then GT else padded_cmp xs [])"
| "padded_cmp [] (y # ys) = (if 0 < y then LT else padded_cmp [] ys)"
| "padded_cmp (x # xs) (y # ys) =
     (if x < y then LT else if y < x then GT else padded_cmp xs ys)"

section \<open>The version comparator\<close>

text \<open>
  \<^verbatim>\<open>parse_version_string\<close>, on a \<^verbatim>\<open>str\<close>.  Its two local variables are functions of
  the input:
  \<^verbatim>\<open>clean_version = version_str.lower().replace('v', '')\<close> and
  \<^verbatim>\<open>comparable_version\<close>, which is \<^verbatim>\<open>f"{base_part}.{build_part}"\<close> with
  \<^verbatim>\<open>base_part, build_part = clean_version.split('_', 1)\<close> when
  \<^verbatim>\<open>'_' in clean_version\<close>, and \<^verbatim>\<open>clean_version\<close> otherwise.  Under that test
  the split has two parts, so the unpacking into two names cannot fail.
\<close>

definition clean_version :: "string \<Rightarrow> string" where
  "clean_version version_str = replace (CHR ''v'') [] (lower version_str)"

definition comparable_version :: "string \<Rightarrow> string" where
  "comparable_version version_str =
     (let clean = clean_version version_str
      in if CHR ''_'' \<in> set clean then
           (case split1 (CHR ''_'') clean of
              [base_part, build_part] \<Rightarrow> base_part @ ''.'' @ build_part
            | _ \<Rightarrow> clean)
         else clean)"

definition parse_version_string :: "string \<Rightarrow> comparable" where
  "parse_version_string version_str =
     (case version_parse (comparable_version version_str) of
        Some r \<Rightarrow> Version r
      | None \<Rightarrow> Str (clean_version version_str))"

text \<open>
  The messages of \<^verbatim>\<open>compare_versions\<close>, one constructor for each format string
  (two of them begin with a pictograph, which is not part of the model):
  \<^item> \<open>Could_not_determine\<close>: \<^verbatim>\<open>Could not determine latest version\<close>;
  \<^item> \<open>Current_latest c l\<close>: \<^verbatim>\<open>Current: {c}, Latest: {l}\<close>;
  \<^item> \<open>New_version_available l c\<close>: \<^verbatim>\<open>New version available: {l} (current: {c})\<close>;
  \<^item> \<open>Have_latest c\<close>: \<^verbatim>\<open>You have the latest version: {c}\<close>;
  \<^item> \<open>Newer_than_listed c l\<close>: \<^verbatim>\<open>Your version {c} is newer than listed {l}\<close>;
  \<^item> \<open>Error_comparing e\<close>: \<^verbatim>\<open>Error comparing versions: {e}\<close>.
\<close>

datatype message =
    Could_not_determine
  | Current_latest string string
  | New_version_available string string
  | Have_latest string
  | Newer_than_listed string string
  | Error_comparing exn

text \<open>
  \<^verbatim>\<open>compare_versions(current_version, latest_version)\<close>.  The current version is the
  string of the configuration; the latest version is whatever the resolver found, a
  value of the API's JSON body included.  On a value that is not a \<^verbatim>\<open>str\<close>,
  \<^verbatim>\<open>version_str.lower()\<close> raises AttributeError inside the \<^verbatim>\<open>try\<close>, and the
  \<^verbatim>\<open>except Exception\<close> branch reports it.
\<close>

definition compare_versions :: "string \<Rightarrow> json \<Rightarrow> bool \<times> message" where
  "compare_versions current_version latest_version =
     (if \<not> truthy latest_version then (False, Could_not_determine)
      else (case latest_version of
              JStr latest \<Rightarrow>
                (let current_parsed = parse_version_string current_version;
                     latest_parsed = parse_version_string latest
                 in if is_str current_parsed \<or> is_str latest_parsed then
                      (current_version \<noteq> latest, Current_latest current_version latest)
                    else if version_gt (release latest_parsed) (release current_parsed) then
                      (True, New_version_available latest current_version)
                    else if version_eq (release latest_parsed) (release current_parsed) then
                      (False, Have_latest current_version)
                    else (False, Newer_than_listed current_version latest))
            | _ \<Rightarrow> (False, Error_comparing (AttributeError (type_name latest_version) ''lower''))))"

section \<open>Operations on Python values\<close>

text \<open>
  The built-in operations the resolver applies to the decoded JSON body.  Each one
  raises where Python raises.  Numbers and booleans compare with each other
  (\<^verbatim>\<open>True == 1\<close>); every other mixed pair is unequal under \<^verbatim>\<open>==\<close> and a TypeError
  under \<^verbatim>\<open>>\<close>.
\<close>

fun num_of :: "json \<Rightarrow> int option" where
  "num_of (JNum n) = Some n"
| "num_of (JBool b) = Some (if b then 1 else 0)"
| "num_of JNull = None"
| "num_of (JStr s) = None"
| "num_of (JArr xs) = None"
| "num_of (JObj kvs) = None"

text \<open>
  \<^verbatim>\<open>a == b\<close>.  Lists are equal when they have the same length and equal elements;
  dicts when they have the same keys, bound to equal values (\<open>py_eq_items a0 a b\<close> walks
  the bindings \<open>a\<close> of the dict \<open>a0\<close>).
\<close>

fun py_eq :: "json \<Rightarrow> json \<Rightarrow> bool"
  and py_eq_list :: "json list \<Rightarrow> json list \<Rightarrow> bool"
  and py_eq_items :: "(string \<times> json) list \<Rightarrow> (string \<times> json) list \<Rightarrow> (string \<times> json) list \<Rightarrow> bool"
where
  "py_eq JNull JNull = True"
| "py_eq (JStr s) (JStr t) = (s = t)"
| "py_eq (JArr xs) (JArr ys) = py_eq_list xs ys"
| "py_eq (JObj a) (JObj b) = (set (map fst a) = set (map fst b) \<and> py_eq_items a a b)"
| "py_eq a b = (case (num_of a, num_of b) of (Some x, Some y) \<Rightarrow> x = y | _ \<Rightarrow> False)"
| "py_eq_list [] [] = True"
| "py_eq_list (x # xs) (y # ys) = (py_eq x y \<and> py_eq_list xs ys)"
| "py_eq_list xs ys = False"
| "py_eq_items a0 [] b = True"
| "py_eq_items a0 ((k, v) # rest) b =
     ((if map_of a0 k = Some v
       then (case map_of b k of Some w \<Rightarrow> py_eq v w | None \<Rightarrow> False)
       else True)
      \<and> py_eq_items a0 rest b)"

text \<open>
  \<^verbatim>\<open>a > b\<close>.  Strings compare lexicographically; lists at the first position where the
  elements are not equal, and by length when there is none.
\<close>

fun py_gt :: "json \<Rightarrow> json \<Rightarrow> exn + bool"
  and py_gt_list :: "json list \<Rightarrow> json list \<Rightarrow> exn + bool"
where
  "py_gt (JStr s) (JStr t) = Inr (t < s)"
| "py_gt (JArr xs) (JArr ys) = py_gt_list xs ys"
| "py_gt a b = (case (num_of a, num_of b) of (Some x, Some y) \<Rightarrow> Inr (y < x) | _ \<Rightarrow> Inl TypeError)"
| "py_gt_list [] ys = Inr False"
| "py_gt_list (x # xs) [] = Inr True"
| "py_gt_list (x # xs) (y # ys) = (if py_eq x y then py_gt_list xs ys else py_gt x y)"

text \<open>\<^verbatim>\<open>key in x\<close> for a string \<open>key\<close>.\<close>

fun contains :: "string \<Rightarrow> json \<Rightarrow> exn + bool" where
  "contains key (JObj kvs) = Inr (key \<in> set (map fst kvs))"
| "contains key (JArr xs) = Inr (list_ex (py_eq (JStr key)) xs)"
| "contains key (JStr s) = Inr (sublist key s)"
| "contains key JNull = Inl TypeError"
| "contains key (JBool b) = Inl TypeError"
| "contains key (JNum n) = Inl TypeError"

text \<open>\<^verbatim>\<open>x[key]\<close> for a string \<open>key\<close>.\<close>

fun subscript :: "json \<Rightarrow> string \<Rightarrow> exn + json" where
  "subscript (JObj kvs) key = (case map_of kvs key of None \<Rightarrow> Inl KeyError | Some v \<Rightarrow> Inr v)"
| "subscript x key = Inl TypeError"

text \<open>\<^verbatim>\<open>x[0]\<close>.  No key of a decoded JSON object is the integer 0.\<close>

fun subscript0 :: "json \<Rightarrow> exn + json" where
  "subscript0 (JArr []) = Inl IndexError"
| "subscript0 (JArr (x # xs)) = Inr x"
| "subscript0 (JStr []) = Inl IndexError"
| "subscript0 (JStr (c # cs)) = Inr (JStr [c])"
| "subscript0 (JObj kvs) = Inl KeyError"
| "subscript0 x = Inl TypeError"

text \<open>The items that \<^verbatim>\<open>for item in x\<close> visits.\<close>

fun iterate :: "json \<Rightarrow> exn + json list" where
  "iterate (JArr xs) = Inr xs"
| "iterate (JStr s) = Inr (map (\<lambda>c. JStr [c]) s)"
| "iterate (JObj kvs) = Inr (map (\<lambda>kv. JStr (fst kv)) kvs)"
| "iterate x = Inl TypeError"

text \<open>\<^verbatim>\<open>x.get(key, dflt)\<close>.\<close>

fun get_default :: "string \<Rightarrow> json \<Rightarrow> json \<Rightarrow> exn + json" where
  "get_default key dflt (JObj kvs) =
     Inr (case map_of kvs key of None \<Rightarrow> dflt | Some v \<Rightarrow> v)"
| "get_default key dflt x = Inl (AttributeError (type_name x) ''get'')"

text \<open>Sequencing of two computations that may raise.\<close>

definition and_then :: "exn + 'a \<Rightarrow> ('a \<Rightarrow> exn + 'b) \<Rightarrow> exn + 'b" where
  "and_then m f = (case m of Inl e \<Rightarrow> Inl e | Inr x \<Rightarrow> f x)"

text \<open>
  \<^verbatim>\<open>max(items, key=key)\<close>: one scan from the left, which keeps the item it holds unless
  the key of the next one is greater under \<^verbatim>\<open>>\<close>.  \<open>gt\<close> is \<^verbatim>\<open>>\<close> on the keys.
\<close>

fun max_scan :: "('k \<Rightarrow> 'k \<Rightarrow> exn + bool) \<Rightarrow> ('a \<Rightarrow> exn + 'k) \<Rightarrow> 'a \<Rightarrow> 'k \<Rightarrow> 'a list \<Rightarrow> exn + 'a" where
  "max_scan gt key maxitem maxval [] = Inr maxitem"
| "max_scan gt key maxitem maxval (item # rest) =
     and_then (key item) (\<lambda>val.
     and_then (gt val maxval) (\<lambda>greater.
       if greater then max_scan gt key item val rest
       else max_scan gt key maxitem maxval rest))"

definition py_max :: "('k \<Rightarrow> 'k \<Rightarrow> exn + bool) \<Rightarrow> ('a \<Rightarrow> exn + 'k) \<Rightarrow> 'a list \<Rightarrow> exn + 'a" where
  "py_max gt key items =
     (case items of
        [] \<Rightarrow> Inl ValueError
      | item # rest \<Rightarrow> and_then (key item) (\<lambda>val. max_scan gt key item val rest))"

section \<open>The authoritative lookup: extraction from the API body\<close>

text \<open>
  \<^verbatim>\<open>max(firmwares, key=lambda x: x.get('updated_at', 0))\<close>, the value of the local
  variable \<^verbatim>\<open>latest_firmware\<close>.
\<close>

definition updated_at :: "json \<Rightarrow> exn + json" where
  "updated_at x = get_default ''updated_at'' (JNum 0) x"

definition latest_firmware :: "json \<Rightarrow> exn + json" where
  "latest_firmware firmwares =
     and_then (iterate firmwares) (\<lambda>items. py_max py_gt updated_at items)"

definition extract_version_from_api_response :: "json \<Rightarrow> exn + json" where
  "extract_version_from_api_response data =
     (if \<not> truthy data then Inr JNull
      else and_then (contains ''data'' data) (\<lambda>has_data.
        if \<not> has_data then Inr JNull
        else and_then (subscript data ''data'') (\<lambda>firmware_list.
          if \<not> truthy firmware_list then Inr JNull
          else and_then (subscript0 firmware_list) (\<lambda>product_data.
            and_then (contains ''firmwares'' product_data) (\<lambda>has_firmwares.
              if \<not> has_firmwares then Inr JNull
              else and_then (subscript product_data ''firmwares'') (\<lambda>firmwares.
                if \<not> truthy firmwares then Inr JNull
                else and_then (latest_firmware firmwares) (\<lambda>latest.
                  and_then (contains ''version'' latest) (\<lambda>has_version.
                    if has_version then subscript latest ''version''
                    else Inr JNull))))))))"

text \<open>
  \<^verbatim>\<open>get_product_and_hardware_ids\<close> with its table \<^verbatim>\<open>model_mappings\<close>: a model is
  bound to its product id and to the ids of its hardware versions.
\<close>

definition model_mappings :: "(string \<times> int \<times> (string \<times> int) list) list" where
  "model_mappings = [(''RLN8-410'', 33, [(''N2MB02'', 231)])]"

definition get_product_and_hardware_ids :: "string \<Rightarrow> string \<Rightarrow> int option \<times> int option" where
  "get_product_and_hardware_ids model hardware_version =
     (case map_of model_mappings model of
        None \<Rightarrow> (None, None)
      | Some (product_id, hardware_versions) \<Rightarrow>
          (case map_of hardware_versions hardware_version of
             None \<Rightarrow> (None, None)
           | Some hardware_id \<Rightarrow>
               if hardware_id \<noteq> 0 then (Some product_id, Some hardware_id) else (None, None)))"

section \<open>The network\<close>

text \<open>
  An HTTP call of the \<^verbatim>\<open>requests\<close> session.  \<open>timeout\<close> is the \<^verbatim>\<open>timeout=\<close> argument
  in seconds, \<open>None\<close> when the call passes none (the library then waits without a
  bound).  \<open>params\<close> are the query parameters, \<open>form\<close> is the \<^verbatim>\<open>data=\<close> of a POST,
  \<open>headers\<close> the \<^verbatim>\<open>headers=\<close> argument.
\<close>

datatype verb = GET | POST

record request =
  verb :: verb
  url :: string
  params :: "(string \<times> json) list"
  form :: "(string \<times> string) list"
  headers :: "(string \<times> string) list"
  timeout :: "nat option"

text \<open>
  A response: its status, its \<^verbatim>\<open>text\<close>, and what \<^verbatim>\<open>response.json()\<close> gives (the
  decoded body, or the exception it raises).
\<close>

record response =
  status_code :: int
  body_text :: string
  body_json :: "exn + json"

datatype reply = Raises exn | Response response

text \<open>
  The network is a parameter of the model: it answers a request, and its answer may
  depend on the requests made before.  A computation of the checker takes the list of
  the requests made so far and returns its result, a value or a raised exception,
  with the list extended by the requests it made.
\<close>

type_synonym net = "request list \<Rightarrow> request \<Rightarrow> reply"

type_synonym 'a prog = "request list \<Rightarrow> (exn + 'a) \<times> request list"

definition ret :: "'a \<Rightarrow> 'a prog" where
  "ret x = (\<lambda>log. (Inr x, log))"

definition lift :: "exn + 'a \<Rightarrow> 'a prog" where
  "lift r = (\<lambda>log. (r, log))"

definition bnd :: "'a prog \<Rightarrow> ('a \<Rightarrow> 'b prog) \<Rightarrow> 'b prog" where
  "bnd m f = (\<lambda>log. case m log of
                      (Inl e, log') \<Rightarrow> (Inl e, log')
                    | (Inr x, log') \<Rightarrow> f x log')"

text \<open>\<^verbatim>\<open>try: m  except: h\<close>\<close>

definition try_except :: "'a prog \<Rightarrow> (exn \<Rightarrow> 'a prog) \<Rightarrow> 'a prog" where
  "try_except m h = (\<lambda>log. case m log of
                             (Inl e, log') \<Rightarrow> h e log'
                           | (Inr x, log') \<Rightarrow> (Inr x, log'))"

definition send :: "net \<Rightarrow> request \<Rightarrow> response prog" where
  "send net rq = (\<lambda>log. (case net log rq of Raises e \<Rightarrow> Inl e | Response r \<Rightarrow> Inr r, log @ [rq]))"

text \<open>
  The regular expressions of the fallback strategies.  \<^verbatim>\<open>re.findall\<close> belongs to the
  standard library, so the model takes it as a parameter: \<open>findall p s\<close> is
  \<^verbatim>\<open>re.findall(p, s, re.IGNORECASE)\<close>, the list of the captured groups of the matches
  of \<open>p\<close> in \<open>s\<close>, in the order of the text.
  \<^item> \<open>Build_version\<close>: \<^verbatim>\<open>v?(\d+\.\d+\.\d+\.\d+_\d+)\<close>
  \<^item> \<open>Version4\<close>: \<^verbatim>\<open>Version[:\s]+v?(\d+\.\d+\.\d+\.\d+)\<close>
  \<^item> \<open>Firmware4\<close>: \<^verbatim>\<open>Firmware[:\s]+v?(\d+\.\d+\.\d+\.\d+)\<close>
  \<^item> \<open>Download4\<close>: \<^verbatim>\<open>Download[:\s]+v?(\d+\.\d+\.\d+\.\d+)\<close>
  \<^item> \<open>Version3\<close>: \<^verbatim>\<open>Version[:\s]+([v]?\d+\.\d+\.\d+)\<close>
  \<^item> \<open>Firmware3\<close>: \<^verbatim>\<open>Firmware[:\s]+([v]?\d+\.\d+\.\d+)\<close>
\<close>

datatype pattern = Build_version | Version4 | Firmware4 | Download4 | Version3 | Firmware3

type_synonym findall = "pattern \<Rightarrow> string \<Rightarrow> string list"

definition base_url :: string where
  "base_url = ''https://reolink.com''"

section \<open>Strategy 1: the vendor API\<close>

definition api_url :: string where
  "api_url = base_url @ ''/wp-json/reo-v2/download/firmware/''"

definition api_request :: "int \<Rightarrow> int \<Rightarrow> request" where
  "api_request product_id hardware_version_id =
     \<lparr>verb = GET,
      url = api_url,
      params = [(''dlProductId'', JNum product_id),
                (''hardwareVersion'', JNum hardware_version_id),
                (''lang'', JStr ''en'')],
      form = [],
      headers = [(''Accept'', ''application/json, text/plain, */*''),
                 (''Pragma'', ''no-cache''),
                 (''Sec-Fetch-Site'', ''same-origin''),
                 (''Accept-Language'', ''en-US,en;q=0.9''),
                 (''Cache-Control'', ''no-cache''),
                 (''Sec-Fetch-Mode'', ''cors''),
                 (''Accept-Encoding'', ''gzip, deflate, br''),
                 (''Referer'', ''https://reolink.com/download-center/''),
                 (''Sec-Fetch-Dest'', ''empty''),
                 (''Priority'', ''u=3, i'')],
      timeout = Some 10\<rparr>"

text \<open>
  \<^verbatim>\<open>get_reolink_firmware_api\<close>: the call, the decoding and the extraction are inside
  one \<^verbatim>\<open>try\<close>; \<^verbatim>\<open>except Exception\<close> and a status other than 200 both fall through to
  \<^verbatim>\<open>return None\<close>.
\<close>

definition get_reolink_firmware_api :: "net \<Rightarrow> int \<Rightarrow> int \<Rightarrow> json prog" where
  "get_reolink_firmware_api net product_id hardware_version_id =
     try_except
       (bnd (send net (api_request product_id hardware_version_id)) (\<lambda>response.
          if status_code response = 200 then
            bnd (lift (body_json response)) (\<lambda>data.
              lift (extract_version_from_api_response data))
          else ret JNull))
       (\<lambda>e. ret JNull)"

section \<open>Strategy 2: the simulated form search\<close>

text \<open>
  \<^verbatim>\<open>extract_version_from_html\<close>: the patterns are tried in their order; the first one
  with matches, of which at least one is longer than five characters, decides.  The key
  of the maximum is the match without its \<^verbatim>\<open>_\<close> and \<^verbatim>\<open>.\<close>, a string.
\<close>

definition html_patterns :: "pattern list" where
  "html_patterns = [Build_version, Version4, Firmware4, Download4]"

definition version_key :: "string \<Rightarrow> string" where
  "version_key x = replace (CHR ''.'') [] (replace (CHR ''_'') [] x)"

definition str_gt :: "string \<Rightarrow> string \<Rightarrow> exn + bool" where
  "str_gt a b = Inr (b < a)"

fun html_scan :: "findall \<Rightarrow> string \<Rightarrow> pattern list \<Rightarrow> exn + json" where
  "html_scan fa html_content [] = Inr JNull"
| "html_scan fa html_content (p # ps) =
     (let matches = fa p html_content;
          versions = filter (\<lambda>m. 5 < length m) matches
      in if matches \<noteq> [] \<and> versions \<noteq> [] then
           and_then (py_max str_gt (\<lambda>x. Inr (version_key x)) versions) (\<lambda>v. Inr (JStr v))
         else html_scan fa html_content ps)"

definition extract_version_from_html :: "findall \<Rightarrow> string \<Rightarrow> exn + json" where
  "extract_version_from_html fa html_content = html_scan fa html_content html_patterns"

definition download_center_get :: request where
  "download_center_get =
     \<lparr>verb = GET, url = base_url @ ''/download-center/'', params = [], form = [],
      headers = [], timeout = None\<rparr>"

definition search_data :: "string \<Rightarrow> string \<Rightarrow> (string \<times> string) list" where
  "search_data model hardware_version =
     [(''model'', model), (''hardware'', hardware_version), (''hw_version'', hardware_version),
      (''product'', model), (''query'', model), (''search'', model), (''type'', ''firmware'')]"

definition download_center_post :: "string \<Rightarrow> string \<Rightarrow> request" where
  "download_center_post model hardware_version =
     \<lparr>verb = POST, url = base_url @ ''/download-center/'', params = [],
      form = search_data model hardware_version, headers = [], timeout = None\<rparr>"

definition sitesearch_get :: "string \<Rightarrow> request" where
  "sitesearch_get model =
     \<lparr>verb = GET, url = base_url @ ''/sitesearch/'', params = [(''q'', JStr model)], form = [],
      headers = [], timeout = None\<rparr>"

text \<open>
  One attempt of \<^verbatim>\<open>simulate_form_search\<close>: the request, and on status 200 the
  extraction.  It returns the version when it is truthy, and \<open>JNull\<close> when the caller
  is to go on: on another status, on no version, and on any exception (the bare
  \<^verbatim>\<open>except: pass\<close>).
\<close>

definition form_attempt :: "net \<Rightarrow> findall \<Rightarrow> request \<Rightarrow> json prog" where
  "form_attempt net fa rq =
     try_except
       (bnd (send net rq) (\<lambda>response.
          if status_code response = 200 then
            bnd (lift (extract_version_from_html fa (body_text response))) (\<lambda>version.
              if truthy version then ret version else ret JNull)
          else ret JNull))
       (\<lambda>e. ret JNull)"

text \<open>
  \<^verbatim>\<open>simulate_form_search\<close>.  The two \<^verbatim>\<open>re.findall\<close> calls on the first page bind
  \<^verbatim>\<open>form_actions\<close> and \<^verbatim>\<open>search_urls\<close>, which nothing reads; they cannot raise on a
  string and are left out.
\<close>

definition simulate_form_search :: "net \<Rightarrow> findall \<Rightarrow> string \<Rightarrow> string \<Rightarrow> json prog" where
  "simulate_form_search net fa model hardware_version =
     try_except
       (bnd (send net download_center_get) (\<lambda>response.
          if status_code response \<noteq> 200 then ret JNull
          else
            bnd (form_attempt net fa (download_center_post model hardware_version)) (\<lambda>version.
              if truthy version then ret version
              else
                bnd (form_attempt net fa (sitesearch_get model)) (\<lambda>version.
                  if truthy version then ret version else ret JNull))))
       (\<lambda>e. ret JNull)"

section \<open>Strategy 3: the download pages of the model\<close>

definition direct_patterns :: "pattern list" where
  "direct_patterns = [Build_version, Version3, Firmware3]"

definition direct_urls :: "string \<Rightarrow> string list" where
  "direct_urls model =
     [base_url @ ''/download-center/'' @ lower model @ ''/'',
      base_url @ ''/download/'' @ lower model @ ''/'',
      base_url @ ''/support/download/'' @ lower model @ ''/'']"

definition direct_get :: "string \<Rightarrow> request" where
  "direct_get u =
     \<lparr>verb = GET, url = u, params = [], form = [], headers = [], timeout = Some 10\<rparr>"

text \<open>
  The inner loop over the patterns: \<^verbatim>\<open>return matches[0]\<close> at the first pattern with
  a match (\<open>Some\<close>), or the end of the loop (\<open>None\<close>).
\<close>

fun first_match :: "findall \<Rightarrow> string \<Rightarrow> pattern list \<Rightarrow> string option" where
  "first_match fa page [] = None"
| "first_match fa page (p # ps) =
     (case fa p page of
        [] \<Rightarrow> first_match fa page ps
      | m # ms \<Rightarrow> Some m)"

text \<open>
  The loop over the URLs of \<^verbatim>\<open>try_direct_download_page\<close>: a \<^verbatim>\<open>return\<close> inside the
  \<^verbatim>\<open>try\<close> ends it, an exception or a page without a match moves on to the next URL.
\<close>

fun direct_loop :: "net \<Rightarrow> findall \<Rightarrow> string list \<Rightarrow> json prog" where
  "direct_loop net fa [] = ret JNull"
| "direct_loop net fa (u # us) =
     bnd (try_except
            (bnd (send net (direct_get u)) (\<lambda>response.
               if status_code response = 200 then
                 ret (first_match fa (body_text response) direct_patterns)
               else ret None))
            (\<lambda>e. ret None))
       (\<lambda>returned.
          case returned of
            Some m \<Rightarrow> ret (JStr m)
          | None \<Rightarrow> direct_loop net fa us)"

definition try_direct_download_page :: "net \<Rightarrow> findall \<Rightarrow> string \<Rightarrow> json prog" where
  "try_direct_download_page net fa model = direct_loop net fa (direct_urls model)"

section \<open>The resolver and the automatic check\<close>

definition search_firmware :: "net \<Rightarrow> findall \<Rightarrow> string \<Rightarrow> string \<Rightarrow> json prog" where
  "search_firmware net fa model hardware_version =
     bnd (case get_product_and_hardware_ids model hardware_version of
            (Some product_id, Some hardware_id) \<Rightarrow>
              if product_id \<noteq> 0 \<and> hardware_id \<noteq> 0
              then get_reolink_firmware_api net product_id hardware_id
              else ret JNull
          | _ \<Rightarrow> ret JNull)
       (\<lambda>version.
          if truthy version then ret version
          else
            bnd (simulate_form_search net fa model hardware_version) (\<lambda>version.
              if truthy version then ret version
              else
                bnd (try_direct_download_page net fa model) (\<lambda>version.
                  if truthy version then ret version else ret JNull)))"

definition check_for_updates :: "net \<Rightarrow> findall \<Rightarrow> string \<Rightarrow> string \<Rightarrow> string \<Rightarrow> bool prog" where
  "check_for_updates net fa model hardware_version current_version =
     bnd (search_firmware net fa model hardware_version) (\<lambda>latest_version.
       if truthy latest_version
       then ret (fst (compare_versions current_version latest_version))
       else ret False)"

text \<open>
  \<^verbatim>\<open>main\<close> when the program is started without arguments
  (\<^verbatim>\<open>len(sys.argv) > 1\<close> is false); the result is the status passed to
  \<^verbatim>\<open>sys.exit\<close>.  \<open>device_config\<close> is the \<^verbatim>\<open>device\<close> table of the configuration, a
  \<^verbatim>\<open>Dict[str, str]\<close>; a value passes \<^verbatim>\<open>all([...])\<close> when it is present and not
  empty.
\<close>

definition present :: "string option \<Rightarrow> bool" where
  "present v = (case v of None \<Rightarrow> False | Some s \<Rightarrow> s \<noteq> [])"

definition main :: "net \<Rightarrow> findall \<Rightarrow> (string \<Rightarrow> string option) \<Rightarrow> int prog" where
  "main net fa device_config =
     (let model = device_config ''model'';
          hardware_version = device_config ''hardware_version'';
          current_version = device_config ''current_firmware_version''
      in if \<not> (present model \<and> present hardware_version \<and> present current_version) then ret 1
         else
           bnd (check_for_updates net fa (the model) (the hardware_version) (the current_version))
             (\<lambda>has_update. if has_update then ret 1 else ret 0))"

section \<open>The claims in the words of the specification\<close>

text \<open>
  Normalization as the specification words it: only a leading \<^verbatim>\<open>v\<close> or \<^verbatim>\<open>V\<close> is
  stripped and the remainder is lower-cased; the underscore becomes a dot exactly when
  the string has exactly one; a string that does not parse is returned normalized.
\<close>

definition spec_normalize :: "string \<Rightarrow> string" where
  "spec_normalize s =
     lower (case s of
              [] \<Rightarrow> []
            | c # cs \<Rightarrow> if c = CHR ''v'' \<or> c = CHR ''V'' then cs else s)"

definition spec_rewrite :: "string \<Rightarrow> string" where
  "spec_rewrite n = (if count_list n (CHR ''_'') = 1 then replace (CHR ''_'') ''.'' n else n)"

definition spec_parse_version_string :: "string \<Rightarrow> comparable" where
  "spec_parse_version_string s =
     (case version_parse (spec_rewrite (spec_normalize s)) of
        Some r \<Rightarrow> Version r
      | None \<Rightarrow> Str (spec_normalize s))"

text \<open>
  A firmware record of the API is an object whose \<^verbatim>\<open>updated_at\<close> is an integer or is
  missing.  Its timestamp counts as 0 when the field is missing; its version is
  \<^verbatim>\<open>None\<close> when it has none.
\<close>

fun firmware_record :: "json \<Rightarrow> bool" where
  "firmware_record (JObj kvs) =
     (case map_of kvs ''updated_at'' of None \<Rightarrow> True | Some (JNum t) \<Rightarrow> True | Some _ \<Rightarrow> False)"
| "firmware_record x = False"

fun timestamp :: "json \<Rightarrow> int" where
  "timestamp (JObj kvs) = (case map_of kvs ''updated_at'' of Some (JNum t) \<Rightarrow> t | _ \<Rightarrow> 0)"
| "timestamp x = 0"

fun version_of :: "json \<Rightarrow> json" where
  "version_of (JObj kvs) = (case map_of kvs ''version'' of Some v \<Rightarrow> v | None \<Rightarrow> JNull)"
| "version_of x = JNull"

fun has_updated_at :: "json \<Rightarrow> bool" where
  "has_updated_at (JObj kvs) = (map_of kvs ''updated_at'' \<noteq> None)"
| "has_updated_at x = False"

text \<open>
  The record the specification selects: of the records with the maximum timestamp, the
  last one in the order of the list.
\<close>

definition max_timestamp :: "json list \<Rightarrow> int" where
  "max_timestamp fs = (case fs of [] \<Rightarrow> 0 | f # rest \<Rightarrow> foldl max (timestamp f) (map timestamp rest))"

definition spec_latest_firmware :: "json list \<Rightarrow> json" where
  "spec_latest_firmware fs = last (filter (\<lambda>f. timestamp f = max_timestamp fs) fs)"

text \<open>The digits of a match, without \<^verbatim>\<open>.\<close> and \<^verbatim>\<open>_\<close>, read as an integer.\<close>

definition digits_value :: "string \<Rightarrow> nat" where
  "digits_value m = digits_to_nat (version_key m)"

text \<open>The requests of the form simulation, in the order in which it makes them.\<close>

definition form_requests :: "string \<Rightarrow> string \<Rightarrow> request list" where
  "form_requests model hardware_version =
     [download_center_get, download_center_post model hardware_version, sitesearch_get model]"

section \<open>Concrete inputs\<close>

text \<open>The body of the test \<^verbatim>\<open>test_api_response_parsing\<close>.\<close>

definition mock_response :: json where
  "mock_response =
     JObj [(''result'', JObj [(''code'', JNum 0), (''msg'', JStr ''ok'')]),
           (''data'', JArr [JObj [(''title'', JStr ''RLN8-410 (NVR)''),
              (''firmwares'', JArr [
                 JObj [(''id'', JNum 484), (''version'', JStr ''v3.4.0.293_24010832''),
                       (''updated_at'', JNum 1708309607000)],
                 JObj [(''id'', JNum 712), (''version'', JStr ''v3.5.1.368_25010326''),
                       (''updated_at'', JNum 1736325210000)]])]])]"

text \<open>A body with two records of the same timestamp.\<close>

definition tie_firmwares :: "json list" where
  "tie_firmwares =
     [JObj [(''version'', JStr ''v3.5.1.368_25010326''), (''updated_at'', JNum 1736325210000)],
      JObj [(''version'', JStr ''v3.5.1.400_25010327''), (''updated_at'', JNum 1736325210000)]]"

definition tie_response :: json where
  "tie_response = JObj [(''data'', JArr [JObj [(''firmwares'', JArr tie_firmwares)]])]"

text \<open>A list in which the first record has no \<^verbatim>\<open>updated_at\<close>.\<close>

definition partial_firmwares :: "json list" where
  "partial_firmwares =
     [JObj [(''version'', JStr ''v3.6.0.1_1'')],
      JObj [(''version'', JStr ''v3.5.1.368_25010326''), (''updated_at'', JNum 1736325210000)]]"

text \<open>A list in which the record without \<^verbatim>\<open>updated_at\<close> stands between two old ones.\<close>

definition negative_firmwares :: "json list" where
  "negative_firmwares =
     [JObj [(''version'', JStr ''v1.0.0.1_1''), (''updated_at'', JNum (- 5))],
      JObj [(''version'', JStr ''v3.6.0.1_1'')],
      JObj [(''version'', JStr ''v1.0.0.2_2''), (''updated_at'', JNum (- 1))]]"

text \<open>
  Four networks: one on which every call fails, one on which only the vendor API
  answers, with the body of the test, one on which every URL answers with the same
  given page, which is not JSON, and one on which every URL answers with the same given
  JSON body.
\<close>

definition net_down :: net where
  "net_down = (\<lambda>log rq. Raises RequestException)"

definition net_api :: net where
  "net_api = (\<lambda>log rq.
     if url rq = api_url
     then Response \<lparr>status_code = 200, body_text = [], body_json = Inr mock_response\<rparr>
     else Raises RequestException)"

definition two_builds :: string where
  "two_builds = ''9.0.0.0_1 10.0.0.0_1''"

definition two_releases :: string where
  "two_releases = ''v3.4.0.293_24010832 v3.5.1.368_25010326''"

definition net_serving :: "string \<Rightarrow> net" where
  "net_serving page = (\<lambda>log rq.
     Response \<lparr>status_code = 200, body_text = page, body_json = Inl JSONDecodeError\<rparr>)"

text \<open>
  The matches of the patterns on these pages: the first pattern finds the two builds
  of \<open>two_builds\<close> and of \<open>two_releases\<close>, and no pattern finds anything else.
\<close>

definition net_json :: "json \<Rightarrow> net" where
  "net_json body = (\<lambda>log rq.
     Response \<lparr>status_code = 200, body_text = [], body_json = Inr body\<rparr>)"

definition findall_pages :: findall where
  "findall_pages = (\<lambda>p s.
     if p = Build_version \<and> s = two_builds then [''9.0.0.0_1'', ''10.0.0.0_1'']
     else if p = Build_version \<and> s = two_releases
     then [''3.4.0.293_24010832'', ''3.5.1.368_25010326'']
     else [])"

text \<open>
  Configurations: an empty device table, one that holds nothing but the model, and the
  default one with an older build.
\<close>

definition model_only_config :: "string \<Rightarrow> string option" where
  "model_only_config = map_of [(''model'', ''RLN8-410'')]"

definition empty_config :: "string \<Rightarrow> string option" where
  "empty_config = (\<lambda>k. None)"

definition older_config :: "string \<Rightarrow> string option" where
  "older_config =
     map_of [(''model'', ''RLN8-410''), (''hardware_version'', ''N2MB02''),
             (''current_firmware_version'', ''v3.5.1.368_25010324'')]"

section \<open>The conjuncts of a conjunction\<close>

lemmas second = conjunct2 [THEN conjunct1]
lemmas third = conjunct2 [THEN second]
lemmas fourth = conjunct2 [THEN third]
lemmas fifth = conjunct2 [THEN fourth]
lemmas sixth = conjunct2 [THEN fifth]
lemmas seventh = conjunct2 [THEN sixth]
lemmas eighth = conjunct2 [THEN seventh]

section \<open>Facts about the version order\<close>

lemma cmpkey_Nil: "cmpkey [] = []"
  by (simp add: cmpkey_def)

lemma cmpkey_Cons: "cmpkey (x # xs) = (if x = 0 \<and> cmpkey xs = [] then [] else x # cmpkey xs)"
  by (auto simp: cmpkey_def dropWhile_append)

lemma tuple_gt_Nil_right: "tuple_gt xs [] = (xs \<noteq> [])"
  by (cases xs) auto

lemma padded_cmp_Nil_right: "padded_cmp xs [] = (if cmpkey xs = [] then EQ else GT)"
  by (induction xs) (auto simp: cmpkey_Cons cmpkey_Nil)

lemma padded_cmp_Nil_left: "padded_cmp [] ys = (if cmpkey ys = [] then EQ else LT)"
  by (induction ys) (auto simp: cmpkey_Cons cmpkey_Nil)

lemma padded_cmp_cmpkey:
  "padded_cmp a b = (if tuple_gt (cmpkey a) (cmpkey b) then GT
                     else if cmpkey a = cmpkey b then EQ else LT)"
proof (induction a b rule: padded_cmp.induct)
  case 1
  show ?case by (simp add: cmpkey_Nil)
next
  case (2 x xs)
  show ?case by (simp add: padded_cmp_Nil_right cmpkey_Nil tuple_gt_Nil_right del: padded_cmp.simps)
next
  case (3 y ys)
  show ?case by (simp add: padded_cmp_Nil_left cmpkey_Nil del: padded_cmp.simps)
next
  case (4 x xs y ys)
  then show ?case by (auto simp add: cmpkey_Cons tuple_gt_Nil_right)
qed

lemma padded_cmp_flip: "(padded_cmp a b = LT) = (padded_cmp b a = GT)"
  by (induction a b rule: padded_cmp.induct) auto

lemma parse_version_string_empty: "parse_version_string [] = Str []"
  by (simp add: parse_version_string_def comparable_version_def clean_version_def lower_def
      version_parse_def is_number_def)

lemmas eval_version =
  parse_version_string_def comparable_version_def clean_version_def lower_def lower_char_def
  upper_letters_def lower_letters_def
  version_parse_def is_number_def is_digit_def digits_to_nat_def digit_val_def

text \<open>
  C2.  When both strings normalize to a structured value, \<open>compare_versions\<close> reports
  an update, with the message for a new version, exactly when the release tuple of the
  latest version is greater than the one of the current version in the comparison of
  the components from left to right, the shorter tuple padded with zeros; it reports
  no update and the latest version when the two are equal, and no update and a newer
  current version when the tuple of the latest version is smaller.
\<close>

theorem compare_versions_structured:
  assumes "parse_version_string current = Version rc"
    and "parse_version_string latest = Version rl"
  shows "compare_versions current (JStr latest) =
           (case padded_cmp rl rc of
              GT \<Rightarrow> (True, New_version_available latest current)
            | EQ \<Rightarrow> (False, Have_latest current)
            | LT \<Rightarrow> (False, Newer_than_listed current latest))
         \<and> (fst (compare_versions current (JStr latest)) = (padded_cmp rl rc = GT))
         \<and> ((padded_cmp rl rc = LT) = (padded_cmp rc rl = GT))"
proof -
  have "latest \<noteq> []"
    using assms(2) parse_version_string_empty by auto
  then have eq: "compare_versions current (JStr latest) =
           (case padded_cmp rl rc of
              GT \<Rightarrow> (True, New_version_available latest current)
            | EQ \<Rightarrow> (False, Have_latest current)
            | LT \<Rightarrow> (False, Newer_than_listed current latest))"
    using assms
    by (simp add: compare_versions_def version_gt_def version_eq_def padded_cmp_cmpkey)
  have "fst (compare_versions current (JStr latest)) = (padded_cmp rl rc = GT)"
    unfolding eq by (cases "padded_cmp rl rc") simp_all
  with eq padded_cmp_flip show ?thesis by blast
qed

theorem compare_versions_structured_witness:
  "parse_version_string ''v3.5.1.368_25010324'' = Version [3, 5, 1, 368, 25010324]
   \<and> parse_version_string ''v3.5.1.368_25010326'' = Version [3, 5, 1, 368, 25010326]
   \<and> compare_versions ''v3.5.1.368_25010324'' (JStr ''v3.5.1.368_25010326'') =
       (True, New_version_available ''v3.5.1.368_25010326'' ''v3.5.1.368_25010324'')"
proof -
  have c: "parse_version_string ''v3.5.1.368_25010324'' = Version [3, 5, 1, 368, 25010324]"
    by (simp add: eval_version)
  have l: "parse_version_string ''v3.5.1.368_25010326'' = Version [3, 5, 1, 368, 25010326]"
    by (simp add: eval_version)
  have "padded_cmp [3, 5, 1, 368, 25010326] [3, 5, 1, 368, 25010324] = GT"
    by simp
  with compare_versions_structured [OF c l]
  have "compare_versions ''v3.5.1.368_25010324'' (JStr ''v3.5.1.368_25010326'') =
       (True, New_version_available ''v3.5.1.368_25010326'' ''v3.5.1.368_25010324'')"
    by simp
  with c l show ?thesis by (intro conjI)
qed

text \<open>
  C8, amended.  When the latest version is not empty and at least one of the two
  strings normalizes to the opaque string, \<open>compare_versions\<close> reports the inequality
  of the two raw strings, with the message that holds both.
\<close>

theorem compare_versions_opaque:
  assumes "latest \<noteq> []"
    and "is_str (parse_version_string current) \<or> is_str (parse_version_string latest)"
  shows "compare_versions current (JStr latest) =
           (current \<noteq> latest, Current_latest current latest)"
  using assms by (simp add: compare_versions_def)

theorem compare_versions_opaque_witness:
  "''beta'' \<noteq> [] \<and> is_str (parse_version_string ''beta'')
   \<and> compare_versions ''1.0'' (JStr ''beta'') = (True, Current_latest ''1.0'' ''beta'')"
proof -
  have n: "''beta'' \<noteq> []" by simp
  have s: "is_str (parse_version_string ''beta'')" by (simp add: eval_version)
  then have s': "is_str (parse_version_string ''1.0'') \<or> is_str (parse_version_string ''beta'')"
    by (rule disjI2)
  have "compare_versions ''1.0'' (JStr ''beta'') = (''1.0'' \<noteq> ''beta'', Current_latest ''1.0'' ''beta'')"
    by (rule compare_versions_opaque [OF n s'])
  then have "compare_versions ''1.0'' (JStr ''beta'') = (True, Current_latest ''1.0'' ''beta'')"
    by simp
  with n s show ?thesis by (intro conjI)
qed

text \<open>
  C8 as the specification states it fails for an empty latest version: the opaque
  fallback is what the empty string normalizes to and the two raw strings differ, yet
  no update is reported and the message is the one for an undetermined version.
\<close>

theorem compare_versions_opaque_counterexample:
  "is_str (parse_version_string [])
   \<and> ''1.0'' \<noteq> []
   \<and> compare_versions ''1.0'' (JStr []) = (False, Could_not_determine)"
  by (simp add: compare_versions_def parse_version_string_empty)

section \<open>Facts about the string operations\<close>

lemma replace_empty_filter: "replace c [] s = filter (\<lambda>x. x \<noteq> c) s"
  by (induction s) auto

lemma split1_absent: "sep \<notin> set s \<Longrightarrow> split1 sep s = [s]"
  by (induction s) auto

lemma split1_first: "sep \<notin> set a \<Longrightarrow> split1 sep (a @ sep # b) = [a, b]"
  by (induction a) auto

lemma clean_version_filter:
  "clean_version s = filter (\<lambda>c. c \<noteq> CHR ''v'') (map lower_char s)"
  by (simp add: clean_version_def lower_def replace_empty_filter)

lemma replace_absent: "c \<notin> set s \<Longrightarrow> replace c new s = s"
  by (induction s) auto

lemma replace_first:
  "c \<notin> set a \<Longrightarrow> c \<notin> set b \<Longrightarrow> replace c new (a @ c # b) = a @ new @ b"
  by (induction a) (auto simp: replace_absent)

lemma count_list_member: "c \<in> set b \<Longrightarrow> 0 < count_list b c"
  by (induction b) auto

lemma count_list_first: "c \<notin> set a \<Longrightarrow> count_list (a @ c # b) c = Suc (count_list b c)"
  by (induction a) auto

lemma split_all_part:
  "c \<in> set s \<Longrightarrow> c \<noteq> sep \<Longrightarrow> \<exists>p\<in>set (split_all sep s). c \<in> set p"
proof (induction s)
  case Nil
  then show ?case by simp
next
  case (Cons x s)
  show ?case
  proof (cases "split_all sep s")
    case Nil
    with Cons show ?thesis by (auto split: if_splits)
  next
    case (Cons h t)
    with Cons.prems Cons.IH show ?thesis by (auto split: if_splits)
  qed
qed

text \<open>A string with an underscore is not a dotted numeric version.\<close>

lemma version_parse_underscore: "CHR ''_'' \<in> set s \<Longrightarrow> version_parse s = None"
proof -
  assume "CHR ''_'' \<in> set s"
  then obtain p where p: "p \<in> set (split_all (CHR ''.'') s)" and u: "CHR ''_'' \<in> set p"
    using split_all_part [of "CHR ''_''" s "CHR ''.''"] by auto
  have "\<not> is_digit (CHR ''_'')"
    by (simp add: is_digit_def)
  with u have "\<not> is_number p"
    by (auto simp: is_number_def list_all_iff)
  with p show ?thesis
    by (auto simp: version_parse_def Let_def list_all_iff)
qed

text \<open>
  The code rewrites the first underscore whenever there is one.  With exactly one
  underscore that is the rewriting of the specification; with more than one the
  rewritten string still has an underscore and does not parse, as the string itself
  does not.
\<close>

lemma parse_version_string_rewrite:
  "parse_version_string s =
     (case version_parse (spec_rewrite (clean_version s)) of
        Some r \<Rightarrow> Version r
      | None \<Rightarrow> Str (clean_version s))"
proof (cases "CHR ''_'' \<in> set (clean_version s)")
  case False
  then have "count_list (clean_version s) (CHR ''_'') = 0"
    by simp
  with False show ?thesis
    by (simp add: parse_version_string_def comparable_version_def spec_rewrite_def)
next
  case True
  then obtain a b where d: "clean_version s = a @ CHR ''_'' # b" and a: "CHR ''_'' \<notin> set a"
    by (meson split_list_first)
  have cmp: "comparable_version s = a @ CHR ''.'' # b"
    using d a by (simp add: comparable_version_def split1_first)
  show ?thesis
  proof (cases "CHR ''_'' \<in> set b")
    case more: True
    then have "0 < count_list b (CHR ''_'')"
      by (rule count_list_member)
    then have "count_list (clean_version s) (CHR ''_'') \<noteq> 1"
      using a by (simp add: d count_list_first del: count_list_0_iff)
    then have "spec_rewrite (clean_version s) = clean_version s"
      by (simp add: spec_rewrite_def)
    moreover have "version_parse (clean_version s) = None"
      using True by (rule version_parse_underscore)
    moreover have "version_parse (comparable_version s) = None"
      using more by (intro version_parse_underscore) (simp add: cmp)
    ultimately show ?thesis
      by (simp add: parse_version_string_def)
  next
    case one: False
    then have "count_list (clean_version s) (CHR ''_'') = 1"
      using a by (simp add: d count_list_first)
    then have "spec_rewrite (clean_version s) = a @ ''.'' @ b"
      using a one by (simp add: spec_rewrite_def d replace_first)
    with cmp show ?thesis
      by (simp add: parse_version_string_def)
  qed
qed

lemma lower_char_v: "(lower_char c = CHR ''v'') = (c = CHR ''v'' \<or> c = CHR ''V'')"
  by (auto simp: lower_char_def upper_letters_def lower_letters_def split: if_splits)

lemma clean_version_leading_v:
  assumes "\<forall>c\<in>set (tl s). c \<noteq> CHR ''v'' \<and> c \<noteq> CHR ''V''"
  shows "clean_version s = spec_normalize s"
proof (cases s)
  case Nil
  then show ?thesis
    by (simp add: clean_version_filter spec_normalize_def lower_def)
next
  case (Cons c cs)
  with assms have "\<forall>x\<in>set cs. lower_char x \<noteq> CHR ''v''"
    by (simp add: lower_char_v)
  then have "filter (\<lambda>c. c \<noteq> CHR ''v'') (map lower_char cs) = map lower_char cs"
    by (simp add: filter_id_conv)
  with Cons show ?thesis
    by (simp add: clean_version_filter spec_normalize_def lower_def lower_char_v)
qed

text \<open>
  C3, amended.  On every string \<open>parse_version_string\<close> gives the result of this
  procedure: the string is lower-cased and every \<^verbatim>\<open>v\<close> is removed from it, wherever
  it stands; then, exactly when the result has exactly one underscore, the underscore
  is replaced by a dot (release.build); the outcome is parsed as a dotted numeric
  version, and when that fails the lower-cased string without its \<^verbatim>\<open>v\<close>s is returned
  as it is.  When no \<^verbatim>\<open>v\<close> or \<^verbatim>\<open>V\<close> stands behind the first character of the
  string, this is the procedure of the specification.
\<close>

theorem parse_version_string_steps:
  "clean_version s = filter (\<lambda>c. c \<noteq> CHR ''v'') (map lower_char s)
   \<and> parse_version_string s =
        (case version_parse (spec_rewrite (clean_version s)) of
           Some r \<Rightarrow> Version r
         | None \<Rightarrow> Str (clean_version s))
   \<and> ((\<forall>c\<in>set (tl s). c \<noteq> CHR ''v'' \<and> c \<noteq> CHR ''V'')
      \<longrightarrow> parse_version_string s = spec_parse_version_string s)"
proof (intro conjI impI)
  show "clean_version s = filter (\<lambda>c. c \<noteq> CHR ''v'') (map lower_char s)"
    by (rule clean_version_filter)
next
  show "parse_version_string s =
        (case version_parse (spec_rewrite (clean_version s)) of
           Some r \<Rightarrow> Version r
         | None \<Rightarrow> Str (clean_version s))"
    by (rule parse_version_string_rewrite)
next
  assume "\<forall>c\<in>set (tl s). c \<noteq> CHR ''v'' \<and> c \<noteq> CHR ''V''"
  then have "clean_version s = spec_normalize s"
    by (rule clean_version_leading_v)
  then show "parse_version_string s = spec_parse_version_string s"
    by (simp add: parse_version_string_rewrite spec_parse_version_string_def
        cong: option.case_cong)
qed

theorem parse_version_string_steps_witness:
  "clean_version ''V3.5.1.368_25010326'' = ''3.5.1.368_25010326''
   \<and> parse_version_string ''V3.5.1.368_25010326'' = Version [3, 5, 1, 368, 25010326]
   \<and> spec_parse_version_string ''V3.5.1.368_25010326'' = Version [3, 5, 1, 368, 25010326]
   \<and> parse_version_string [CHR 0xC9, CHR ''V'', CHR ''_'', CHR ''1'', CHR ''_'', CHR ''2'']
       = Str [CHR 0xE9, CHR ''_'', CHR ''1'', CHR ''_'', CHR ''2'']"
proof -
  let ?s = "''V3.5.1.368_25010326''"
  let ?t = "[CHR 0xC9, CHR ''V'', CHR ''_'', CHR ''1'', CHR ''_'', CHR ''2'']"
  note steps = parse_version_string_steps [of ?s]
  have c: "clean_version ?s = ''3.5.1.368_25010326''"
    using steps by (simp add: lower_char_def upper_letters_def lower_letters_def)
  from steps have "parse_version_string ?s =
        (case version_parse (spec_rewrite (clean_version ?s)) of
           Some r \<Rightarrow> Version r
         | None \<Rightarrow> Str (clean_version ?s))"
    by blast
  then have p: "parse_version_string ?s = Version [3, 5, 1, 368, 25010326]"
    unfolding c
    by (simp add: spec_rewrite_def version_parse_def is_number_def is_digit_def
        digits_to_nat_def digit_val_def)
  have "\<forall>c\<in>set (tl ?s). c \<noteq> CHR ''v'' \<and> c \<noteq> CHR ''V''"
    by simp
  with steps have "parse_version_string ?s = spec_parse_version_string ?s"
    by blast
  with p have q: "spec_parse_version_string ?s = Version [3, 5, 1, 368, 25010326]"
    by simp
  note steps' = parse_version_string_steps [of ?t]
  have c': "clean_version ?t = [CHR 0xE9, CHR ''_'', CHR ''1'', CHR ''_'', CHR ''2'']"
    using steps' by (simp add: lower_char_def upper_letters_def lower_letters_def)
  from steps' have "parse_version_string ?t =
        (case version_parse (spec_rewrite (clean_version ?t)) of
           Some r \<Rightarrow> Version r
         | None \<Rightarrow> Str (clean_version ?t))"
    by blast
  then have r: "parse_version_string ?t = Str [CHR 0xE9, CHR ''_'', CHR ''1'', CHR ''_'', CHR ''2'']"
    unfolding c'
    by (simp add: spec_rewrite_def version_parse_def is_number_def is_digit_def)
  from c p q r show ?thesis by (intro conjI)
qed

text \<open>
  C3 as the specification states it fails on a \<^verbatim>\<open>v\<close> that does not lead: it is removed
  as well, so \<^verbatim>\<open>1.v2\<close> parses as 1.2 where the specification keeps the opaque string.
\<close>

theorem parse_version_string_counterexample:
  "parse_version_string ''1.v2'' = Version [1, 2]
   \<and> spec_parse_version_string ''1.v2'' = Str ''1.v2''"
  by (simp add: eval_version spec_parse_version_string_def spec_normalize_def spec_rewrite_def)

section \<open>Facts about the maximum scan\<close>

text \<open>
  When every key is the image \<open>enc (t x)\<close> of a value in a linear order and \<open>gt\<close> is the
  order on the images, the scan returns the first item whose \<open>t\<close> is maximal.
\<close>

lemma max_scan_first_max:
  fixes t :: "'a \<Rightarrow> 'o::linorder"
  assumes "\<And>x. x \<in> set xs \<Longrightarrow> key x = Inr (enc (t x))"
    and "\<And>a b. gt (enc a) (enc b) = Inr (b < a)"
  shows "\<exists>pre r post. max_scan gt key m (enc (t m)) xs = Inr r \<and> m # xs = pre @ r # post
           \<and> (\<forall>x\<in>set pre. t x < t r) \<and> (\<forall>x\<in>set post. t x \<le> t r)"
  using assms(1)
proof (induction xs arbitrary: m)
  case Nil
  have "m # [] = [] @ m # []" by simp
  then show ?case by fastforce
next
  case (Cons x xs)
  have kx: "key x = Inr (enc (t x))"
    using Cons.prems by simp
  have rest: "\<And>y. y \<in> set xs \<Longrightarrow> key y = Inr (enc (t y))"
    using Cons.prems by simp
  show ?case
  proof (cases "t m < t x")
    case True
    from Cons.IH [OF rest, of x] obtain pre r post where
      s: "max_scan gt key x (enc (t x)) xs = Inr r" and d: "x # xs = pre @ r # post"
      and p: "\<forall>y\<in>set pre. t y < t r" and q: "\<forall>y\<in>set post. t y \<le> t r"
      by blast
    have "x \<in> set (pre @ r # post)"
      using d by (metis list.set_intros(1))
    then have "t x \<le> t r"
      using p q by auto
    with True have mr: "t m < t r" by simp
    have "max_scan gt key m (enc (t m)) (x # xs) = Inr r"
      using True s by (simp add: and_then_def kx assms(2))
    moreover have "m # x # xs = (m # pre) @ r # post"
      using d by simp
    moreover have "\<forall>y\<in>set (m # pre). t y < t r"
      using mr p by simp
    ultimately show ?thesis
      using q by blast
  next
    case False
    from Cons.IH [OF rest, of m] obtain pre r post where
      s: "max_scan gt key m (enc (t m)) xs = Inr r" and d: "m # xs = pre @ r # post"
      and p: "\<forall>y\<in>set pre. t y < t r" and q: "\<forall>y\<in>set post. t y \<le> t r"
      by blast
    have sc: "max_scan gt key m (enc (t m)) (x # xs) = Inr r"
      using False s by (simp add: and_then_def kx assms(2))
    show ?thesis
    proof (cases pre)
      case Nil
      with d have "r = m" and "post = xs" by simp_all
      then have "m # x # xs = [] @ r # (x # post)" by simp
      moreover have "\<forall>y\<in>set (x # post). t y \<le> t r"
        using q False \<open>r = m\<close> by auto
      ultimately show ?thesis
        using sc by (metis empty_iff empty_set)
    next
      case (Cons a pre')
      with d have "a = m" and xs: "xs = pre' @ r # post" by simp_all
      then have "t m < t r"
        using p Cons by simp
      with False have "t x < t r" by simp
      then have "\<forall>y\<in>set (m # x # pre'). t y < t r"
        using p Cons \<open>a = m\<close> by simp
      moreover have "m # x # xs = (m # x # pre') @ r # post"
        using xs by simp
      ultimately show ?thesis
        using sc q by blast
    qed
  qed
qed

lemma py_max_first_max:
  fixes t :: "'a \<Rightarrow> 'o::linorder"
  assumes "\<And>x. x \<in> set xs \<Longrightarrow> key x = Inr (enc (t x))"
    and "\<And>a b. gt (enc a) (enc b) = Inr (b < a)"
    and "xs \<noteq> []"
  shows "\<exists>pre r post. py_max gt key xs = Inr r \<and> xs = pre @ r # post
           \<and> (\<forall>x\<in>set pre. t x < t r) \<and> (\<forall>x\<in>set post. t x \<le> t r)"
proof -
  from assms(3) obtain m rest where xs: "xs = m # rest"
    by (cases xs) auto
  have "\<And>x. x \<in> set rest \<Longrightarrow> key x = Inr (enc (t x))"
    using assms(1) xs by simp
  from max_scan_first_max [of rest key enc t gt m, OF this assms(2)]
  show ?thesis
    using assms(1) [of m] xs by (simp add: py_max_def and_then_def)
qed

section \<open>Facts about the extraction from the API body\<close>

lemma updated_at_record: "firmware_record f \<Longrightarrow> updated_at f = Inr (JNum (timestamp f))"
  by (cases f) (auto simp: updated_at_def split: option.splits json.splits)

lemma py_gt_JNum: "py_gt (JNum a) (JNum b) = Inr (b < a)"
  by simp

lemma version_of_record:
  "firmware_record r \<Longrightarrow>
   and_then (contains ''version'' r) (\<lambda>has_version.
     if has_version then subscript r ''version'' else Inr JNull) = Inr (version_of r)"
  by (cases r) (auto simp: and_then_def map_of_eq_None_iff [symmetric] split: option.splits
      simp del: map_of_eq_None_iff)

lemma map_of_Some_key: "map_of kvs k = Some v \<Longrightarrow> k \<in> fst ` set kvs"
  by (metis map_of_eq_None_iff option.distinct(1))

text \<open>
  C1, amended.  When the body is an object whose \<^verbatim>\<open>data\<close> is a list, the first
  element of it an object whose \<^verbatim>\<open>firmwares\<close> is a non-empty list of firmware
  records, the extraction returns the version field of the record with the maximum
  \<^verbatim>\<open>updated_at\<close> (\<^verbatim>\<open>None\<close> if that record has no version), and among several records
  with the maximum timestamp it is the first one in the order of the list: every record
  before it has a smaller timestamp, no record after it has a greater one.
\<close>

theorem extract_version_first_latest:
  assumes "map_of body ''data'' = Some (JArr (JObj product # others))"
    and "map_of product ''firmwares'' = Some (JArr firmwares)"
    and "firmwares \<noteq> []"
    and "list_all firmware_record firmwares"
  shows "\<exists>pre r post. firmwares = pre @ r # post
           \<and> (\<forall>x\<in>set pre. timestamp x < timestamp r)
           \<and> (\<forall>x\<in>set post. timestamp x \<le> timestamp r)
           \<and> extract_version_from_api_response (JObj body) = Inr (version_of r)"
proof -
  have keys: "\<And>x. x \<in> set firmwares \<Longrightarrow> updated_at x = Inr (JNum (timestamp x))"
    using assms(4) by (simp add: list_all_iff updated_at_record)
  from py_max_first_max [of firmwares updated_at JNum timestamp py_gt, OF keys py_gt_JNum assms(3)]
  obtain pre r post where
    m: "py_max py_gt updated_at firmwares = Inr r" and d: "firmwares = pre @ r # post"
    and p: "\<forall>x\<in>set pre. timestamp x < timestamp r"
    and q: "\<forall>x\<in>set post. timestamp x \<le> timestamp r"
    by blast
  have "r \<in> set firmwares"
    using d by simp
  then have rec: "firmware_record r"
    using assms(4) by (simp add: list_all_iff)
  have "body \<noteq> []"
    using assms(1) by auto
  moreover have "''data'' \<in> fst ` set body"
    using assms(1) by (rule map_of_Some_key)
  moreover have "''firmwares'' \<in> fst ` set product"
    using assms(2) by (rule map_of_Some_key)
  ultimately have "extract_version_from_api_response (JObj body) = Inr (version_of r)"
    using assms(1,2,3) m version_of_record [OF rec]
    by (simp add: extract_version_from_api_response_def latest_firmware_def and_then_def)
  with d p q show ?thesis by blast
qed


lemmas eval_extract =
  extract_version_from_api_response_def latest_firmware_def py_max_def updated_at_def
  and_then_def

theorem extract_version_first_latest_witness:
  "extract_version_from_api_response mock_response = Inr (JStr ''v3.5.1.368_25010326'')"
proof -
  let ?old = "JObj [(''id'', JNum 484), (''version'', JStr ''v3.4.0.293_24010832''),
                    (''updated_at'', JNum 1708309607000)]"
  let ?new = "JObj [(''id'', JNum 712), (''version'', JStr ''v3.5.1.368_25010326''),
                    (''updated_at'', JNum 1736325210000)]"
  let ?product = "[(''title'', JStr ''RLN8-410 (NVR)''), (''firmwares'', JArr [?old, ?new])]"
  let ?body = "[(''result'', JObj [(''code'', JNum 0), (''msg'', JStr ''ok'')]),
                (''data'', JArr [JObj ?product])]"
  have h1: "map_of ?body ''data'' = Some (JArr (JObj ?product # []))" by simp
  have h2: "map_of ?product ''firmwares'' = Some (JArr [?old, ?new])" by simp
  have h3: "[?old, ?new] \<noteq> []" by simp
  have h4: "list_all firmware_record [?old, ?new]" by simp
  from extract_version_first_latest [OF h1 h2 h3 h4] obtain pre r post where
    d: "[?old, ?new] = pre @ r # post"
    and q: "\<forall>x\<in>set post. timestamp x \<le> timestamp r"
    and e: "extract_version_from_api_response (JObj ?body) = Inr (version_of r)"
    by blast
  from d have "(pre = [] \<and> r = ?old \<and> post = [?new]) \<or> (pre = [?old] \<and> r = ?new \<and> post = [])"
    by (auto simp: Cons_eq_append_conv)
  with q have "r = ?new" by auto
  with e show ?thesis by (simp add: mock_response_def)
qed

text \<open>
  C1 as the specification states it fails on a tie: of two records with the same
  timestamp the extraction returns the version of the first one, the specification
  names the last one.
\<close>

theorem extract_version_tie_counterexample:
  "extract_version_from_api_response tie_response = Inr (JStr ''v3.5.1.368_25010326'')
   \<and> version_of (spec_latest_firmware tie_firmwares) = JStr ''v3.5.1.400_25010327''"
  by (simp add: eval_extract tie_response_def tie_firmwares_def spec_latest_firmware_def
      max_timestamp_def)

section \<open>Records without a timestamp\<close>

lemma py_gt_num_left:
  "py_gt a b = Inr c \<Longrightarrow> num_of a = Some x \<Longrightarrow> \<exists>y. num_of b = Some y \<and> c = (y < x)"
  by (cases a; cases b) (auto split: if_splits)

lemma py_gt_num_right:
  "py_gt a b = Inr c \<Longrightarrow> num_of b = Some y \<Longrightarrow> \<exists>x. num_of a = Some x \<and> c = (y < x)"
  by (cases a; cases b) (auto split: if_splits)

text \<open>
  A scan that ends without an exception has compared every key with the one it held.
  So when one of the keys is a number, the key of the item it returns is a number, and
  not a smaller one.
\<close>

lemma max_scan_numeric:
  assumes "max_scan py_gt key m mv xs = Inr r" and "key m = Inr mv"
  shows "\<exists>rv. key r = Inr rv \<and>
           (\<forall>t. (num_of mv = Some t \<or> (\<exists>x\<in>set xs. \<exists>v. key x = Inr v \<and> num_of v = Some t))
              \<longrightarrow> (\<exists>tr. num_of rv = Some tr \<and> t \<le> tr))"
  using assms
proof (induction xs arbitrary: m mv)
  case Nil
  then show ?case by auto
next
  case (Cons x xs)
  from Cons.prems(1) obtain v where kx: "key x = Inr v"
    by (cases "key x") (auto simp: and_then_def)
  with Cons.prems(1) obtain g where gt: "py_gt v mv = Inr g"
    by (cases "py_gt v mv") (auto simp: and_then_def)
  show ?case
  proof (cases g)
    case True
    with Cons.prems(1) kx gt have "max_scan py_gt key x v xs = Inr r"
      by (simp add: and_then_def)
    from Cons.IH [OF this kx] obtain rv where kr: "key r = Inr rv"
      and ih: "\<And>t. num_of v = Some t \<or> (\<exists>y\<in>set xs. \<exists>w. key y = Inr w \<and> num_of w = Some t)
                 \<Longrightarrow> \<exists>tr. num_of rv = Some tr \<and> t \<le> tr"
      by blast
    have "\<exists>tr. num_of rv = Some tr \<and> t \<le> tr"
      if h: "num_of mv = Some t \<or> (\<exists>y\<in>set (x # xs). \<exists>w. key y = Inr w \<and> num_of w = Some t)" for t
    proof -
      consider (held) "num_of mv = Some t" | (new) "num_of v = Some t"
        | (later) "\<exists>y\<in>set xs. \<exists>w. key y = Inr w \<and> num_of w = Some t"
        using h kx by auto
      then show ?thesis
      proof cases
        case held
        from py_gt_num_right [OF gt held] True obtain t' where "num_of v = Some t'" and "t < t'"
          by auto
        with ih [of t'] show ?thesis by force
      next
        case new
        with ih show ?thesis by blast
      next
        case later
        with ih show ?thesis by blast
      qed
    qed
    with kr show ?thesis by blast
  next
    case False
    with Cons.prems(1) kx gt have "max_scan py_gt key m mv xs = Inr r"
      by (simp add: and_then_def)
    from Cons.IH [OF this Cons.prems(2)] obtain rv where kr: "key r = Inr rv"
      and ih: "\<And>t. num_of mv = Some t \<or> (\<exists>y\<in>set xs. \<exists>w. key y = Inr w \<and> num_of w = Some t)
                 \<Longrightarrow> \<exists>tr. num_of rv = Some tr \<and> t \<le> tr"
      by blast
    have "\<exists>tr. num_of rv = Some tr \<and> t \<le> tr"
      if h: "num_of mv = Some t \<or> (\<exists>y\<in>set (x # xs). \<exists>w. key y = Inr w \<and> num_of w = Some t)" for t
    proof -
      consider (held) "num_of mv = Some t" | (new) "num_of v = Some t"
        | (later) "\<exists>y\<in>set xs. \<exists>w. key y = Inr w \<and> num_of w = Some t"
        using h kx by auto
      then show ?thesis
      proof cases
        case held
        with ih show ?thesis by blast
      next
        case new
        from py_gt_num_left [OF gt new] False obtain t' where "num_of mv = Some t'" and "t \<le> t'"
          by auto
        with ih [of t'] show ?thesis by force
      next
        case later
        with ih show ?thesis by blast
      qed
    qed
    with kr show ?thesis by blast
  qed
qed

lemma latest_firmware_numeric:
  assumes "latest_firmware (JArr firmwares) = Inr r"
    and "f \<in> set firmwares" and "updated_at f = Inr (JNum t)"
  shows "\<exists>rv tr. updated_at r = Inr rv \<and> num_of rv = Some tr \<and> t \<le> tr"
proof -
  from assms(2) obtain m xs where fs: "firmwares = m # xs"
    by (cases firmwares) auto
  from assms(1) fs obtain mv where km: "updated_at m = Inr mv"
    by (cases "updated_at m") (auto simp: latest_firmware_def py_max_def and_then_def)
  with assms(1) fs have "max_scan py_gt updated_at m mv xs = Inr r"
    by (simp add: latest_firmware_def py_max_def and_then_def)
  from max_scan_numeric [OF this km] obtain rv where kr: "updated_at r = Inr rv"
    and all: "\<And>t. num_of mv = Some t \<or> (\<exists>x\<in>set xs. \<exists>v. updated_at x = Inr v \<and> num_of v = Some t)
                \<Longrightarrow> \<exists>tr. num_of rv = Some tr \<and> t \<le> tr"
    by blast
  have "num_of mv = Some t \<or> (\<exists>x\<in>set xs. \<exists>v. updated_at x = Inr v \<and> num_of v = Some t)"
  proof (cases "f = m")
    case True
    with km assms(3) show ?thesis by simp
  next
    case False
    with assms(2) fs have "f \<in> set xs" by simp
    with assms(3) show ?thesis by force
  qed
  from all [OF this] kr show ?thesis by blast
qed

text \<open>
  C10.  The key of a record without \<^verbatim>\<open>updated_at\<close> is 0, and the selection ranks the
  record by it: on a non-empty list of firmware records the extraction selects the
  first record whose timestamp is the maximum, where a missing field counts as 0 and a
  present one as its value.  So when the list holds a record with a positive
  \<^verbatim>\<open>updated_at\<close>, the record that the extraction selects has the field, and this holds
  of every list on which the selection ends without an exception.
\<close>

theorem missing_updated_at_not_selected:
  "(\<not> has_updated_at (JObj kvs)
      \<longrightarrow> updated_at (JObj kvs) = Inr (JNum 0) \<and> timestamp (JObj kvs) = 0)
   \<and> (map_of kvs ''updated_at'' = Some (JNum t')
      \<longrightarrow> updated_at (JObj kvs) = Inr (JNum t') \<and> timestamp (JObj kvs) = t')
   \<and> (firmwares \<noteq> [] \<and> list_all firmware_record firmwares
      \<longrightarrow> (\<exists>pre s post. firmwares = pre @ s # post
            \<and> latest_firmware (JArr firmwares) = Inr s
            \<and> (\<forall>x\<in>set pre. timestamp x < timestamp s)
            \<and> (\<forall>x\<in>set post. timestamp x \<le> timestamp s)))
   \<and> (latest_firmware (JArr firmwares) = Inr r \<and> JObj fkvs \<in> set firmwares
        \<and> map_of fkvs ''updated_at'' = Some (JNum t) \<and> 0 < t
      \<longrightarrow> has_updated_at r)"
proof (intro conjI impI)
  assume "\<not> has_updated_at (JObj kvs)"
  then show "updated_at (JObj kvs) = Inr (JNum 0)" and "timestamp (JObj kvs) = 0"
    by (simp_all add: updated_at_def)
next
  assume "map_of kvs ''updated_at'' = Some (JNum t')"
  then show "updated_at (JObj kvs) = Inr (JNum t')" and "timestamp (JObj kvs) = t'"
    by (simp_all add: updated_at_def)
next
  assume a: "latest_firmware (JArr firmwares) = Inr r \<and> JObj fkvs \<in> set firmwares
        \<and> map_of fkvs ''updated_at'' = Some (JNum t) \<and> 0 < t"
  then have "updated_at (JObj fkvs) = Inr (JNum t)"
    by (simp add: updated_at_def)
  with a latest_firmware_numeric [of firmwares r "JObj fkvs" t]
  obtain rv tr where kr: "updated_at r = Inr rv" and n: "num_of rv = Some tr" and "t \<le> tr"
    by blast
  with a have pos: "0 < tr" by simp
  show "has_updated_at r"
  proof (cases r)
    case (JObj rkvs)
    show ?thesis
    proof (rule ccontr)
      assume "\<not> has_updated_at r"
      with JObj kr have "rv = JNum 0"
        by (simp add: updated_at_def)
      with n pos show False by simp
    qed
  qed (use kr in \<open>simp_all add: updated_at_def\<close>)
next
  assume a: "firmwares \<noteq> [] \<and> list_all firmware_record firmwares"
  then have keys: "\<And>x. x \<in> set firmwares \<Longrightarrow> updated_at x = Inr (JNum (timestamp x))"
    by (simp add: list_all_iff updated_at_record)
  from a have "firmwares \<noteq> []" by simp
  from py_max_first_max [of firmwares updated_at JNum timestamp py_gt, OF keys py_gt_JNum this]
  show "\<exists>pre s post. firmwares = pre @ s # post
            \<and> latest_firmware (JArr firmwares) = Inr s
            \<and> (\<forall>x\<in>set pre. timestamp x < timestamp s)
            \<and> (\<forall>x\<in>set post. timestamp x \<le> timestamp s)"
    by (auto simp: latest_firmware_def and_then_def)
qed

theorem missing_updated_at_not_selected_witness:
  "\<not> has_updated_at (JObj [(''version'', JStr ''v3.6.0.1_1'')])
   \<and> updated_at (JObj [(''version'', JStr ''v3.6.0.1_1'')]) = Inr (JNum 0)
   \<and> latest_firmware (JArr negative_firmwares) = Inr (JObj [(''version'', JStr ''v3.6.0.1_1'')])
   \<and> latest_firmware (JArr partial_firmwares) =
       Inr (JObj [(''version'', JStr ''v3.5.1.368_25010326''), (''updated_at'', JNum 1736325210000)])
   \<and> has_updated_at
       (JObj [(''version'', JStr ''v3.5.1.368_25010326''), (''updated_at'', JNum 1736325210000)])"
proof -
  let ?bare = "[(''version'', JStr ''v3.6.0.1_1'')]"
  let ?dated = "[(''version'', JStr ''v3.5.1.368_25010326''), (''updated_at'', JNum 1736325210000)]"
  let ?first = "JObj [(''version'', JStr ''v1.0.0.1_1''), (''updated_at'', JNum (- 5))]"
  let ?last = "JObj [(''version'', JStr ''v1.0.0.2_2''), (''updated_at'', JNum (- 1))]"
  note inst = missing_updated_at_not_selected
    [where kvs = ?bare and firmwares = partial_firmwares and r = "JObj ?dated"
       and fkvs = ?dated and t = 1736325210000]
  have a: "\<not> has_updated_at (JObj ?bare)" by simp
  note b = inst [THEN conjunct1, THEN mp, OF a, THEN conjunct1]
  have w: "[?first, JObj ?bare, ?last] \<noteq> [] \<and> list_all firmware_record [?first, JObj ?bare, ?last]"
    by simp
  from missing_updated_at_not_selected [where firmwares = "[?first, JObj ?bare, ?last]",
      THEN third, THEN mp, OF w]
  obtain pre s post where
    d: "[?first, JObj ?bare, ?last] = pre @ s # post"
    and e: "latest_firmware (JArr [?first, JObj ?bare, ?last]) = Inr s"
    and lt: "\<forall>x\<in>set pre. timestamp x < timestamp s"
    and le: "\<forall>x\<in>set post. timestamp x \<le> timestamp s"
    by blast
  from d have "(pre = [] \<and> s = ?first \<and> post = [JObj ?bare, ?last])
      \<or> (pre = [?first] \<and> s = JObj ?bare \<and> post = [?last])
      \<or> (pre = [?first, JObj ?bare] \<and> s = ?last \<and> post = [])"
    by (auto simp: Cons_eq_append_conv)
  with lt le have "s = JObj ?bare"
    by auto
  with e have n: "latest_firmware (JArr negative_firmwares) = Inr (JObj ?bare)"
    by (simp add: negative_firmwares_def)
  have c: "latest_firmware (JArr partial_firmwares) = Inr (JObj ?dated)"
    by (simp add: latest_firmware_def py_max_def updated_at_def and_then_def partial_firmwares_def)
  have "latest_firmware (JArr partial_firmwares) = Inr (JObj ?dated)
        \<and> JObj ?dated \<in> set partial_firmwares
        \<and> map_of ?dated ''updated_at'' = Some (JNum 1736325210000) \<and> (0::int) < 1736325210000"
    using c by (simp add: partial_firmwares_def)
  note h = inst [THEN conjunct2, THEN conjunct2, THEN conjunct2, THEN mp, OF this]
  from a b n c h show ?thesis by (intro conjI)
qed

section \<open>Facts about digit strings\<close>

lemma foldl_digits_acc:
  "foldl (\<lambda>acc c. 10 * acc + digit_val c) acc s =
     acc * 10 ^ length s + foldl (\<lambda>acc c. 10 * acc + digit_val c) 0 s"
proof (induction s arbitrary: acc)
  case Nil
  show ?case by simp
next
  case (Cons c s)
  let ?f = "\<lambda>acc c. 10 * acc + digit_val c"
  have "foldl ?f acc (c # s) = foldl ?f (10 * acc + digit_val c) s"
    by simp
  also have "\<dots> = (10 * acc + digit_val c) * 10 ^ length s + foldl ?f 0 s"
    by (rule Cons.IH)
  finally have l: "foldl ?f acc (c # s) = (10 * acc + digit_val c) * 10 ^ length s + foldl ?f 0 s" .
  have "foldl ?f 0 (c # s) = foldl ?f (digit_val c) s"
    by simp
  also have "\<dots> = digit_val c * 10 ^ length s + foldl ?f 0 s"
    by (rule Cons.IH)
  finally have r: "foldl ?f 0 (c # s) = digit_val c * 10 ^ length s + foldl ?f 0 s" .
  show ?case
    unfolding l r by (simp add: algebra_simps)
qed

lemma digits_to_nat_Cons:
  "digits_to_nat (c # s) = digit_val c * 10 ^ length s + digits_to_nat s"
  using foldl_digits_acc [of "digit_val c" s] by (simp add: digits_to_nat_def)

lemma digit_val_le: "is_digit c \<Longrightarrow> digit_val c \<le> 9"
  by (auto simp: is_digit_def digit_val_def Let_def)

lemma digits_to_nat_bound: "list_all is_digit s \<Longrightarrow> digits_to_nat s < 10 ^ length s"
proof (induction s)
  case Nil
  show ?case by (simp add: digits_to_nat_def)
next
  case (Cons c s)
  then have d: "digit_val c \<le> 9" and b: "digits_to_nat s < 10 ^ length s"
    by (simp_all add: digit_val_le)
  have le: "digit_val c * 10 ^ length s \<le> 9 * 10 ^ length s"
    using d by (rule mult_le_mono1)
  have e: "(10::nat) ^ length (c # s) = 10 * 10 ^ length s"
    by simp
  show ?case
    unfolding digits_to_nat_Cons e using b le by linarith
qed

lemma digit_less: "is_digit c \<Longrightarrow> is_digit d \<Longrightarrow> (c < d) = (digit_val c < digit_val d)"
  by (auto simp: is_digit_def digit_val_def Let_def less_char_def)

lemma digit_eq: "is_digit c \<Longrightarrow> is_digit d \<Longrightarrow> (c = d) = (digit_val c = digit_val d)"
proof
  assume "is_digit c" and "is_digit d" and "digit_val c = digit_val d"
  then have "(of_char c :: nat) = of_char d"
    unfolding is_digit_def digit_val_def Let_def by linarith
  then show "c = d" by simp
qed simp

text \<open>On digit strings of one length the order of the strings is the order of the numbers.\<close>

lemma digits_less_iff:
  "length a = length b \<Longrightarrow> list_all is_digit a \<Longrightarrow> list_all is_digit b \<Longrightarrow>
   (a < b) = (digits_to_nat a < digits_to_nat b)"
proof (induction a b rule: list_induct2)
  case Nil
  show ?case by simp
next
  case (Cons x xs y ys)
  let ?P = "(10::nat) ^ length xs"
  from Cons.prems have dx: "is_digit x" and dy: "is_digit y"
    and ax: "list_all is_digit xs" and ay: "list_all is_digit ys"
    by simp_all
  have bx: "digits_to_nat xs < ?P"
    using ax by (rule digits_to_nat_bound)
  have by': "digits_to_nat ys < ?P"
    using ay Cons.hyps digits_to_nat_bound [of ys] by simp
  have ih: "(xs < ys) = (digits_to_nat xs < digits_to_nat ys)"
    using Cons.IH ax ay by simp
  consider (lt) "digit_val x < digit_val y" | (eq) "digit_val x = digit_val y"
    | (gt) "digit_val y < digit_val x"
    by linarith
  then show ?case
  proof cases
    case lt
    then have "Suc (digit_val x) * ?P \<le> digit_val y * ?P"
      by (intro mult_le_mono1) simp
    then have "digit_val x * ?P + digits_to_nat xs < digit_val y * ?P + digits_to_nat ys"
      using bx by simp
    moreover have "x < y"
      using lt dx dy by (simp add: digit_less)
    ultimately show ?thesis
      using Cons.hyps by (simp add: digits_to_nat_Cons)
  next
    case eq
    then have "x = y"
      using dx dy by (simp add: digit_eq)
    then show ?thesis
      using ih Cons.hyps by (simp add: digits_to_nat_Cons)
  next
    case gt
    then have "Suc (digit_val y) * ?P \<le> digit_val x * ?P"
      by (intro mult_le_mono1) simp
    then have "digit_val y * ?P + digits_to_nat ys < digit_val x * ?P + digits_to_nat xs"
      using by' by simp
    then have "\<not> digits_to_nat (x # xs) < digits_to_nat (y # ys)"
      using Cons.hyps by (simp add: digits_to_nat_Cons)
    moreover have "y < x"
      using gt dx dy by (simp add: digit_less)
    then have "\<not> x # xs < y # ys"
      by auto
    ultimately show ?thesis
      by simp
  qed
qed

lemma digits_le_imp:
  assumes "length a = length b" and "list_all is_digit a" and "list_all is_digit b" and "a \<le> b"
  shows "digits_to_nat a \<le> digits_to_nat b"
proof (cases "a = b")
  case True
  then show ?thesis by simp
next
  case False
  with assms(4) have "a < b" by simp
  with digits_less_iff [OF assms(1,2,3)] show ?thesis by simp
qed

section \<open>Facts about the extraction from a page\<close>

lemma html_scan_first_pattern:
  assumes "\<forall>q\<in>set before. filter (\<lambda>m. 5 < length m) (fa q html) = []"
    and "filter (\<lambda>m. 5 < length m) (fa p html) \<noteq> []"
  shows "html_scan fa html (before @ p # after) =
           and_then (py_max str_gt (\<lambda>x. Inr (version_key x)) (filter (\<lambda>m. 5 < length m) (fa p html)))
             (\<lambda>v. Inr (JStr v))"
  using assms(1)
proof (induction before)
  case Nil
  have "fa p html \<noteq> []"
    using assms(2) by auto
  with assms(2) show ?case by (simp add: Let_def)
next
  case (Cons q before)
  then show ?case by (simp add: Let_def)
qed

lemma html_scan_none:
  "\<forall>q\<in>set ps. filter (\<lambda>m. 5 < length m) (fa q html) = [] \<Longrightarrow> html_scan fa html ps = Inr JNull"
  by (induction ps) (simp_all add: Let_def)

lemma first_match_first_pattern:
  assumes "\<forall>q\<in>set before. fa q page = []" and "fa p page = m # ms"
  shows "first_match fa page (before @ p # after) = Some m"
  using assms by (induction before) simp_all

lemmas eval_prog = ret_def bnd_def try_except_def lift_def send_def

lemma form_attempt_page:
  assumes "net log rq = Response resp" and "status_code resp = 200"
    and "extract_version_from_html fa (body_text resp) = Inr v" and "truthy v"
  shows "form_attempt net fa rq log = (Inr v, log @ [rq])"
  using assms by (simp add: form_attempt_def eval_prog)

lemma direct_loop_page:
  assumes "net log (direct_get u) = Response resp" and "status_code resp = 200"
    and "first_match fa (body_text resp) direct_patterns = Some m"
  shows "direct_loop net fa (u # us) log = (Inr (JStr m), log @ [direct_get u])"
  using assms by (simp add: eval_prog)

text \<open>
  C4, amended.  In the form simulation the extraction takes the first pattern that has
  a match longer than five characters and returns one of these matches; when the digit
  strings of these matches (the matches without \<^verbatim>\<open>.\<close> and \<^verbatim>\<open>_\<close>) all have the same
  length, it returns the first match whose digits, read as an integer, are the
  greatest.  Without such a match under any pattern it returns \<^verbatim>\<open>None\<close>.  In the
  strategy of the download pages the extraction returns the first match of the first
  pattern that has one.
\<close>

theorem fallback_extraction:
  "(html_patterns = before @ p # after
      \<and> (\<forall>q\<in>set before. filter (\<lambda>m. 5 < length m) (fa q html) = [])
      \<and> filter (\<lambda>m. 5 < length m) (fa p html) \<noteq> []
    \<longrightarrow> (\<exists>pre v post.
           filter (\<lambda>m. 5 < length m) (fa p html) = pre @ v # post
         \<and> extract_version_from_html fa html = Inr (JStr v)
         \<and> ((\<forall>x\<in>set (filter (\<lambda>m. 5 < length m) (fa p html)).
                 list_all is_digit (version_key x)
               \<and> length (version_key x) = length (version_key v))
            \<longrightarrow> (\<forall>x\<in>set pre. digits_value x < digits_value v)
              \<and> (\<forall>x\<in>set post. digits_value x \<le> digits_value v))))
   \<and> ((\<forall>q\<in>set html_patterns. filter (\<lambda>m. 5 < length m) (fa q html) = [])
      \<longrightarrow> extract_version_from_html fa html = Inr JNull)
   \<and> (net log rq = Response resp \<and> status_code resp = 200
        \<and> extract_version_from_html fa (body_text resp) = Inr w \<and> truthy w
      \<longrightarrow> form_attempt net fa rq log = (Inr w, log @ [rq]))
   \<and> (direct_patterns = before' @ p' # after'
        \<and> (\<forall>q\<in>set before'. fa q page = []) \<and> fa p' page = m # ms
      \<longrightarrow> first_match fa page direct_patterns = Some m)
   \<and> (net log (direct_get u) = Response resp' \<and> status_code resp' = 200
        \<and> first_match fa (body_text resp') direct_patterns = Some m'
      \<longrightarrow> direct_loop net fa (u # us) log = (Inr (JStr m'), log @ [direct_get u]))"
proof (intro conjI impI)
  let ?cand = "filter (\<lambda>m. 5 < length m) (fa p html)"
  assume a: "html_patterns = before @ p # after
      \<and> (\<forall>q\<in>set before. filter (\<lambda>m. 5 < length m) (fa q html) = [])
      \<and> ?cand \<noteq> []"
  have keys: "\<And>x. x \<in> set ?cand \<Longrightarrow> (\<lambda>x. Inr (version_key x)) x = Inr ((\<lambda>k. k) (version_key x))"
    by simp
  have gt: "\<And>a b. str_gt ((\<lambda>k. k) a) ((\<lambda>k. k) b) = Inr (b < a)"
    by (simp add: str_gt_def)
  from a have ne: "?cand \<noteq> []" by simp
  from py_max_first_max [of ?cand "\<lambda>x. Inr (version_key x)" "\<lambda>k. k" version_key str_gt,
      OF keys gt ne]
  obtain pre v post where
    m: "py_max str_gt (\<lambda>x. Inr (version_key x)) ?cand = Inr v" and d: "?cand = pre @ v # post"
    and lt: "\<forall>x\<in>set pre. version_key x < version_key v"
    and le: "\<forall>x\<in>set post. version_key x \<le> version_key v"
    by blast
  have e: "extract_version_from_html fa html = Inr (JStr v)"
    using a m html_scan_first_pattern [of before fa html p after]
    by (simp add: extract_version_from_html_def and_then_def)
  have n: "(\<forall>x\<in>set pre. digits_value x < digits_value v)
         \<and> (\<forall>x\<in>set post. digits_value x \<le> digits_value v)"
    if h: "\<forall>x\<in>set ?cand. list_all is_digit (version_key x)
               \<and> length (version_key x) = length (version_key v)"
  proof (intro conjI ballI)
    have dv: "list_all is_digit (version_key v)"
      using h d by (metis in_set_conv_decomp)
    {
      fix x
      assume "x \<in> set pre"
      then have "x \<in> set ?cand" and "version_key x < version_key v"
        using d lt by (metis Un_iff set_append, blast)
      with h dv show "digits_value x < digits_value v"
        unfolding digits_value_def by (simp add: digits_less_iff)
    }
    {
      fix x
      assume "x \<in> set post"
      then have "x \<in> set ?cand" and "version_key x \<le> version_key v"
        using d le by (metis Un_iff list.set_intros(2) set_append, blast)
      with h dv show "digits_value x \<le> digits_value v"
        unfolding digits_value_def by (intro digits_le_imp) blast+
    }
  qed
  from d e n
  show "\<exists>pre v post.
           ?cand = pre @ v # post
         \<and> extract_version_from_html fa html = Inr (JStr v)
         \<and> ((\<forall>x\<in>set ?cand.
                 list_all is_digit (version_key x)
               \<and> length (version_key x) = length (version_key v))
            \<longrightarrow> (\<forall>x\<in>set pre. digits_value x < digits_value v)
              \<and> (\<forall>x\<in>set post. digits_value x \<le> digits_value v))"
    by blast
next
  assume "\<forall>q\<in>set html_patterns. filter (\<lambda>m. 5 < length m) (fa q html) = []"
  then show "extract_version_from_html fa html = Inr JNull"
    unfolding extract_version_from_html_def by (rule html_scan_none)
next
  assume "net log rq = Response resp \<and> status_code resp = 200
        \<and> extract_version_from_html fa (body_text resp) = Inr w \<and> truthy w"
  then show "form_attempt net fa rq log = (Inr w, log @ [rq])"
    by (simp add: form_attempt_page)
next
  assume "direct_patterns = before' @ p' # after'
        \<and> (\<forall>q\<in>set before'. fa q page = []) \<and> fa p' page = m # ms"
  then show "first_match fa page direct_patterns = Some m"
    using first_match_first_pattern [of before' fa page p' m ms after'] by simp
next
  assume "net log (direct_get u) = Response resp' \<and> status_code resp' = 200
        \<and> first_match fa (body_text resp') direct_patterns = Some m'"
  then show "direct_loop net fa (u # us) log = (Inr (JStr m'), log @ [direct_get u])"
    by (blast intro: direct_loop_page)
qed

lemmas eval_pages =
  findall_pages_def two_builds_def two_releases_def net_serving_def version_key_def
  digits_value_def digits_to_nat_def digit_val_def is_digit_def less_char_def less_eq_char_def

theorem fallback_extraction_witness:
  "extract_version_from_html findall_pages two_releases = Inr (JStr ''3.5.1.368_25010326'')
   \<and> digits_value ''3.4.0.293_24010832'' < digits_value ''3.5.1.368_25010326''
   \<and> extract_version_from_html findall_pages [] = Inr JNull
   \<and> form_attempt (net_serving two_releases) findall_pages (sitesearch_get ''RLN8-410'') [] =
       (Inr (JStr ''3.5.1.368_25010326''), [sitesearch_get ''RLN8-410''])
   \<and> first_match findall_pages two_releases direct_patterns = Some ''3.4.0.293_24010832''
   \<and> direct_loop (net_serving two_releases) findall_pages [api_url] [] =
       (Inr (JStr ''3.4.0.293_24010832''), [direct_get api_url])"
proof -
  let ?old = "''3.4.0.293_24010832''" and ?new = "''3.5.1.368_25010326''"
  let ?resp = "\<lparr>status_code = 200, body_text = two_releases, body_json = Inl JSONDecodeError\<rparr>"
  note inst = fallback_extraction
    [where before = "[]" and p = Build_version and after = "[Version4, Firmware4, Download4]"
       and fa = findall_pages and html = two_releases
       and net = "net_serving two_releases" and log = "[]" and rq = "sitesearch_get ''RLN8-410''"
       and resp = ?resp and w = "JStr ?new"
       and before' = "[]" and p' = Build_version and after' = "[Version3, Firmware3]"
       and page = two_releases and m = ?old and ms = "[?new]"
       and u = api_url and resp' = ?resp and m' = ?old and us = "[]"]
  have cand: "filter (\<lambda>m. 5 < length m) (findall_pages Build_version two_releases) = [?old, ?new]"
    by (simp add: eval_pages)
  have prem: "html_patterns = [] @ Build_version # [Version4, Firmware4, Download4]
      \<and> (\<forall>q\<in>set []. filter (\<lambda>m. 5 < length m) (findall_pages q two_releases) = [])
      \<and> filter (\<lambda>m. 5 < length m) (findall_pages Build_version two_releases) \<noteq> []"
    using cand by (simp add: html_patterns_def)
  note html = inst [THEN conjunct1, THEN mp, OF prem, unfolded cand]
  then obtain pre v post where
    d: "[?old, ?new] = pre @ v # post"
    and e: "extract_version_from_html findall_pages two_releases = Inr (JStr v)"
    and n: "(\<forall>x\<in>set [?old, ?new]. list_all is_digit (version_key x)
               \<and> length (version_key x) = length (version_key v))
            \<longrightarrow> (\<forall>x\<in>set pre. digits_value x < digits_value v)
              \<and> (\<forall>x\<in>set post. digits_value x \<le> digits_value v)"
    by blast
  from d have shape: "(pre = [] \<and> v = ?old \<and> post = [?new]) \<or> (pre = [?old] \<and> v = ?new \<and> post = [])"
    by (auto simp: Cons_eq_append_conv)
  have digits': "\<forall>x\<in>set [?old, ?new]. list_all is_digit (version_key x)
               \<and> length (version_key x) = length (version_key ?old)"
    by (simp add: version_key_def is_digit_def)
  have digits: "\<forall>x\<in>set [?old, ?new]. list_all is_digit (version_key x)
               \<and> length (version_key x) = length (version_key ?new)"
    by (simp add: version_key_def is_digit_def)
  have order: "digits_value ?old < digits_value ?new"
    by (simp add: digits_value_def version_key_def digits_to_nat_def digit_val_def)
  have v: "v = ?new"
  proof (rule ccontr)
    assume "v \<noteq> ?new"
    with shape have s: "pre = []" "v = ?old" "post = [?new]" by auto
    note n [unfolded s, THEN mp, OF digits', THEN conjunct2, THEN bspec, of ?new]
    then have "digits_value ?new \<le> digits_value ?old"
      by simp
    with order show False by simp
  qed
  have c1: "extract_version_from_html findall_pages two_releases = Inr (JStr ?new)"
    using e unfolding v .
  from shape v have pre: "pre = [?old]" by auto
  note n [unfolded v pre, THEN mp, OF digits, THEN conjunct1, THEN bspec, of ?old]
  then have c2: "digits_value ?old < digits_value ?new"
    by simp
  have "\<forall>q\<in>set html_patterns. filter (\<lambda>m. 5 < length m) (findall_pages q []) = []"
    by (simp add: eval_pages)
  note c0 = fallback_extraction [where fa = findall_pages and html = "[]",
      THEN conjunct2, THEN conjunct1, THEN mp, OF this]
  have "net_serving two_releases [] (sitesearch_get ''RLN8-410'') = Response ?resp
      \<and> status_code ?resp = 200
      \<and> extract_version_from_html findall_pages (body_text ?resp) = Inr (JStr ?new)
      \<and> truthy (JStr ?new)"
    using c1 by (simp add: net_serving_def)
  note c3 = inst [THEN conjunct2, THEN conjunct2, THEN conjunct1, THEN mp, OF this]
  have "direct_patterns = [] @ Build_version # [Version3, Firmware3]
      \<and> (\<forall>q\<in>set []. findall_pages q two_releases = [])
      \<and> findall_pages Build_version two_releases = ?old # [?new]"
    by (simp add: direct_patterns_def eval_pages)
  note c4 = inst [THEN conjunct2, THEN conjunct2, THEN conjunct2, THEN conjunct1, THEN mp, OF this]
  have "net_serving two_releases [] (direct_get api_url) = Response ?resp
      \<and> status_code ?resp = 200
      \<and> first_match findall_pages (body_text ?resp) direct_patterns = Some ?old"
    using c4 by (simp add: net_serving_def)
  note c5 = inst [THEN conjunct2, THEN conjunct2, THEN conjunct2, THEN conjunct2, THEN mp, OF this]
  from c1 c2 c0 c3 c4 c5 show ?thesis by simp
qed

lemmas eval_strategies =
  simulate_form_search_def form_attempt_def try_direct_download_page_def direct_urls_def
  extract_version_from_html_def html_patterns_def direct_patterns_def py_max_def str_gt_def
  and_then_def

text \<open>
  C4 as the specification states it fails on a page with the builds 9.0.0.0_1 and
  10.0.0.0_1, in this order.  As integers the digits of the second are the greater,
  100001 against 90001.  Both strategies return the first build: the form simulation
  because it compares the digits as text, the strategy of the download pages because
  it is the first match.
\<close>

theorem fallback_extraction_counterexample:
  "findall_pages Build_version two_builds = [''9.0.0.0_1'', ''10.0.0.0_1'']
   \<and> digits_value ''9.0.0.0_1'' < digits_value ''10.0.0.0_1''
   \<and> extract_version_from_html findall_pages two_builds = Inr (JStr ''9.0.0.0_1'')
   \<and> fst (simulate_form_search (net_serving two_builds) findall_pages ''RLN8-410'' ''N2MB02'' [])
       = Inr (JStr ''9.0.0.0_1'')
   \<and> fst (try_direct_download_page (net_serving two_builds) findall_pages ''RLN8-410'' [])
       = Inr (JStr ''9.0.0.0_1'')"
  by (simp add: eval_pages eval_strategies eval_prog)

section \<open>Facts about the strategies\<close>

text \<open>
  Each strategy returns a value, whatever the network answers, and extends the list of
  requests by its own requests, in their order.
\<close>

lemma get_reolink_firmware_api_returns:
  "\<exists>v. get_reolink_firmware_api net product_id hardware_id log =
         (Inr v, log @ [api_request product_id hardware_id])"
proof (cases "net log (api_request product_id hardware_id)")
  case (Raises e)
  then show ?thesis
    by (simp add: get_reolink_firmware_api_def eval_prog)
next
  case (Response r)
  show ?thesis
  proof (cases "status_code r = 200")
    case False
    with Response show ?thesis
      by (simp add: get_reolink_firmware_api_def eval_prog)
  next
    case True
    show ?thesis
    proof (cases "body_json r")
      case (Inl e)
      with Response True show ?thesis
        by (simp add: get_reolink_firmware_api_def eval_prog)
    next
      case (Inr data)
      with Response True show ?thesis
        by (cases "extract_version_from_api_response data")
          (simp_all add: get_reolink_firmware_api_def eval_prog)
    qed
  qed
qed

lemma form_attempt_returns: "\<exists>v. form_attempt net fa rq log = (Inr v, log @ [rq])"
proof (cases "net log rq")
  case (Raises e)
  then show ?thesis
    by (simp add: form_attempt_def eval_prog)
next
  case (Response r)
  then show ?thesis
    by (cases "extract_version_from_html fa (body_text r)")
      (simp_all add: form_attempt_def eval_prog)
qed

lemma simulate_form_search_returns:
  "\<exists>v rs. simulate_form_search net fa model hardware_version log = (Inr v, log @ rs)
     \<and> rs \<noteq> [] \<and> prefix rs (form_requests model hardware_version)"
proof -
  let ?get = download_center_get
  let ?post = "download_center_post model hardware_version"
  let ?site = "sitesearch_get model"
  obtain v1 where a1: "form_attempt net fa ?post (log @ [?get]) = (Inr v1, (log @ [?get]) @ [?post])"
    using form_attempt_returns by blast
  obtain v2 where a2: "form_attempt net fa ?site (log @ [?get, ?post])
      = (Inr v2, (log @ [?get, ?post]) @ [?site])"
    using form_attempt_returns by blast
  have p1: "prefix [?get] (form_requests model hardware_version)"
    and p2: "prefix [?get, ?post] (form_requests model hardware_version)"
    and p3: "prefix [?get, ?post, ?site] (form_requests model hardware_version)"
    by (simp_all add: form_requests_def)
  show ?thesis
  proof (cases "net log ?get")
    case (Raises e)
    then have "simulate_form_search net fa model hardware_version log = (Inr JNull, log @ [?get])"
      by (simp add: simulate_form_search_def eval_prog)
    with p1 show ?thesis by blast
  next
    case (Response r)
    show ?thesis
    proof (cases "status_code r = 200")
      case False
      with Response
      have "simulate_form_search net fa model hardware_version log = (Inr JNull, log @ [?get])"
        by (simp add: simulate_form_search_def eval_prog)
      with p1 show ?thesis by blast
    next
      case True
      show ?thesis
      proof (cases "truthy v1")
        case t1: True
        with Response True a1
        have "simulate_form_search net fa model hardware_version log
            = (Inr v1, log @ [?get, ?post])"
          by (simp add: simulate_form_search_def eval_prog)
        with p2 show ?thesis by blast
      next
        case f1: False
        with Response True a1 a2
        have "simulate_form_search net fa model hardware_version log
            = (Inr (if truthy v2 then v2 else JNull), log @ [?get, ?post, ?site])"
          by (simp add: simulate_form_search_def eval_prog)
        with p3 show ?thesis by blast
      qed
    qed
  qed
qed

lemma direct_loop_returns:
  "\<exists>v rs. direct_loop net fa us log = (Inr v, log @ rs) \<and> prefix rs (map direct_get us)"
proof (induction us arbitrary: log)
  case Nil
  show ?case by (simp add: eval_prog)
next
  case (Cons u us)
  from Cons.IH [of "log @ [direct_get u]"] obtain v rs where
    ih: "direct_loop net fa us (log @ [direct_get u]) = (Inr v, (log @ [direct_get u]) @ rs)"
    and pre: "prefix rs (map direct_get us)"
    by blast
  have p1: "prefix [direct_get u] (map direct_get (u # us))"
    by simp
  have p2: "prefix (direct_get u # rs) (map direct_get (u # us))"
    using pre by simp
  let ?attempt = "try_except
            (bnd (send net (direct_get u)) (\<lambda>response.
               if status_code response = 200 then
                 ret (first_match fa (body_text response) direct_patterns)
               else ret None))
            (\<lambda>e. ret None)"
  have "\<exists>returned. ?attempt log = (Inr returned, log @ [direct_get u])"
    by (cases "net log (direct_get u)") (simp_all add: eval_prog)
  then obtain returned where att: "?attempt log = (Inr returned, log @ [direct_get u])"
    by blast
  show ?case
  proof (cases returned)
    case None
    with att ih have "direct_loop net fa (u # us) log = (Inr v, log @ direct_get u # rs)"
      by (simp add: bnd_def)
    with p2 show ?thesis by blast
  next
    case (Some m)
    with att have "direct_loop net fa (u # us) log = (Inr (JStr m), log @ [direct_get u])"
      by (simp add: bnd_def ret_def)
    with p1 show ?thesis by blast
  qed
qed

lemma try_direct_download_page_returns:
  "\<exists>v rs. try_direct_download_page net fa model log = (Inr v, log @ rs)
     \<and> prefix rs (map direct_get (direct_urls model))"
  unfolding try_direct_download_page_def by (rule direct_loop_returns)

lemma get_product_and_hardware_ids_table:
  "get_product_and_hardware_ids model hardware_version =
     (if model = ''RLN8-410'' \<and> hardware_version = ''N2MB02''
      then (Some 33, Some 231) else (None, None))"
  by (simp add: get_product_and_hardware_ids_def model_mappings_def)

section \<open>Facts about the resolver\<close>

text \<open>
  The three stages of \<open>search_firmware\<close>: what each strategy returns from the list of
  requests its predecessor left, and which of the three results the resolver returns.
\<close>

lemma search_firmware_stages:
  "\<exists>v1 l1 v2 l2 v3 l3 f d.
      get_product_and_hardware_ids model hardware_version =
        (if model = ''RLN8-410'' \<and> hardware_version = ''N2MB02''
         then (Some 33, Some 231) else (None, None))
    \<and> (if model = ''RLN8-410'' \<and> hardware_version = ''N2MB02''
        then get_reolink_firmware_api net 33 231 log = (Inr v1, l1)
           \<and> l1 = log @ [api_request 33 231]
        else v1 = JNull \<and> l1 = log)
    \<and> simulate_form_search net fa model hardware_version l1 = (Inr v2, l2)
    \<and> l2 = l1 @ f \<and> f \<noteq> [] \<and> prefix f (form_requests model hardware_version)
    \<and> try_direct_download_page net fa model l2 = (Inr v3, l3)
    \<and> l3 = l2 @ d \<and> prefix d (map direct_get (direct_urls model))
    \<and> search_firmware net fa model hardware_version log =
        (if truthy v1 then (Inr v1, l1)
         else if truthy v2 then (Inr v2, l2)
         else if truthy v3 then (Inr v3, l3)
         else (Inr JNull, l3))"
proof -
  let ?mapped = "model = ''RLN8-410'' \<and> hardware_version = ''N2MB02''"
  obtain v1 l1 where
    s1: "if ?mapped
         then get_reolink_firmware_api net 33 231 log = (Inr v1, l1)
            \<and> l1 = log @ [api_request 33 231]
         else v1 = JNull \<and> l1 = log"
    using get_reolink_firmware_api_returns [of net 33 231 log] by (cases ?mapped) auto
  obtain v2 f where
    s2: "simulate_form_search net fa model hardware_version l1 = (Inr v2, l1 @ f)"
    and f: "f \<noteq> []" "prefix f (form_requests model hardware_version)"
    using simulate_form_search_returns by blast
  obtain v3 d where
    s3: "try_direct_download_page net fa model (l1 @ f) = (Inr v3, (l1 @ f) @ d)"
    and d: "prefix d (map direct_get (direct_urls model))"
    using try_direct_download_page_returns by blast
  have stage1: "(case get_product_and_hardware_ids model hardware_version of
            (Some product_id, Some hardware_id) \<Rightarrow>
              if product_id \<noteq> 0 \<and> hardware_id \<noteq> 0
              then get_reolink_firmware_api net product_id hardware_id
              else ret JNull
          | _ \<Rightarrow> ret JNull) log = (Inr v1, l1)"
  proof (cases ?mapped)
    case True
    then have "get_product_and_hardware_ids model hardware_version = (Some 33, Some 231)"
      by (simp add: get_product_and_hardware_ids_table)
    with True s1 show ?thesis by simp
  next
    case False
    then have "get_product_and_hardware_ids model hardware_version = (None, None)"
      by (simp add: get_product_and_hardware_ids_table)
    with False s1 show ?thesis by (simp add: ret_def)
  qed
  have "search_firmware net fa model hardware_version log =
        (if truthy v1 then (Inr v1, l1)
         else if truthy v2 then (Inr v2, l1 @ f)
         else if truthy v3 then (Inr v3, (l1 @ f) @ d)
         else (Inr JNull, (l1 @ f) @ d))"
    unfolding search_firmware_def bnd_def stage1 by (simp add: s2 s3 ret_def)
  with s1 s2 s3 f d get_product_and_hardware_ids_table [of model hardware_version]
  show ?thesis by blast
qed

text \<open>
  C5.  The resolver looks the pair up in the table; only the pair of the table has ids,
  every other pair gives \<open>(None, None)\<close> and no request goes to the API.  The three
  strategies then stand in a fixed order: the requests of the API come first, those of
  the form simulation second, those of the download pages last.  The result is the
  first truthy result in this order, and the list of requests ends with the strategy
  that gave it, so no later strategy has run.
\<close>

theorem search_firmware_order:
  "\<exists>v1 l1 v2 l2 v3 l3 f d.
      get_product_and_hardware_ids model hardware_version =
        (if model = ''RLN8-410'' \<and> hardware_version = ''N2MB02''
         then (Some 33, Some 231) else (None, None))
    \<and> (if model = ''RLN8-410'' \<and> hardware_version = ''N2MB02''
        then get_reolink_firmware_api net 33 231 log = (Inr v1, l1)
           \<and> l1 = log @ [api_request 33 231]
        else v1 = JNull \<and> l1 = log)
    \<and> simulate_form_search net fa model hardware_version l1 = (Inr v2, l2)
    \<and> l2 = l1 @ f \<and> f \<noteq> [] \<and> prefix f (form_requests model hardware_version)
    \<and> try_direct_download_page net fa model l2 = (Inr v3, l3)
    \<and> l3 = l2 @ d \<and> prefix d (map direct_get (direct_urls model))
    \<and> search_firmware net fa model hardware_version log =
        (if truthy v1 then (Inr v1, l1)
         else if truthy v2 then (Inr v2, l2)
         else if truthy v3 then (Inr v3, l3)
         else (Inr JNull, l3))"
  by (rule search_firmware_stages)

lemmas eval_api =
  get_reolink_firmware_api_def api_request_def api_url_def base_url_def net_api_def
  net_down_def mock_response_def

theorem search_firmware_order_witness:
  "get_product_and_hardware_ids ''RLN8-410'' ''N2MB02'' = (Some 33, Some 231)
   \<and> search_firmware net_api findall_pages ''RLN8-410'' ''N2MB02'' [] =
       (Inr (JStr ''v3.5.1.368_25010326''), [api_request 33 231])
   \<and> get_product_and_hardware_ids ''UNKNOWN_MODEL'' ''UNKNOWN_HW'' = (None, None)"
proof -
  from search_firmware_order [of "''RLN8-410''" "''N2MB02''" net_api "[]" findall_pages]
  obtain v1 l1 v2 l2 v3 l3 where
    ids: "get_product_and_hardware_ids ''RLN8-410'' ''N2MB02'' = (Some 33, Some 231)"
    and api: "get_reolink_firmware_api net_api 33 231 [] = (Inr v1, l1)"
    and res: "search_firmware net_api findall_pages ''RLN8-410'' ''N2MB02'' [] =
        (if truthy v1 then (Inr v1, l1)
         else if truthy v2 then (Inr v2, l2)
         else if truthy v3 then (Inr v3, l3)
         else (Inr JNull, l3))"
    by auto
  have "get_reolink_firmware_api net_api 33 231 [] =
      (Inr (JStr ''v3.5.1.368_25010326''), [api_request 33 231])"
    by (simp add: eval_api eval_prog eval_extract)
  with api have "v1 = JStr ''v3.5.1.368_25010326''" and "l1 = [api_request 33 231]"
    by simp_all
  with res have found: "search_firmware net_api findall_pages ''RLN8-410'' ''N2MB02'' [] =
       (Inr (JStr ''v3.5.1.368_25010326''), [api_request 33 231])"
    by simp
  from search_firmware_order [of "''UNKNOWN_MODEL''" "''UNKNOWN_HW''" net_api "[]" findall_pages]
  have "get_product_and_hardware_ids ''UNKNOWN_MODEL'' ''UNKNOWN_HW'' = (None, None)"
    by auto
  with ids found show ?thesis by (intro conjI)
qed

section \<open>Facts about a network that gives no page\<close>

text \<open>
  On a network whose every answer is an exception or a status other than 200, each
  strategy returns \<^verbatim>\<open>None\<close>.
\<close>

lemma api_without_page:
  assumes "\<forall>l rq. case net l rq of Raises e \<Rightarrow> True | Response r \<Rightarrow> status_code r \<noteq> 200"
  shows "fst (get_reolink_firmware_api net product_id hardware_id log) = Inr JNull"
proof (cases "net log (api_request product_id hardware_id)")
  case (Raises e)
  then show ?thesis
    by (simp add: get_reolink_firmware_api_def eval_prog)
next
  case (Response r)
  with assms [rule_format, of log "api_request product_id hardware_id"]
  have "status_code r \<noteq> 200" by simp
  with Response show ?thesis
    by (simp add: get_reolink_firmware_api_def eval_prog)
qed

lemma form_search_without_page:
  assumes "\<forall>l rq. case net l rq of Raises e \<Rightarrow> True | Response r \<Rightarrow> status_code r \<noteq> 200"
  shows "fst (simulate_form_search net fa model hardware_version log) = Inr JNull"
proof (cases "net log download_center_get")
  case (Raises e)
  then show ?thesis
    by (simp add: simulate_form_search_def eval_prog)
next
  case (Response r)
  with assms [rule_format, of log download_center_get]
  have "status_code r \<noteq> 200" by simp
  with Response show ?thesis
    by (simp add: simulate_form_search_def eval_prog)
qed

lemma direct_loop_without_page:
  assumes "\<forall>l rq. case net l rq of Raises e \<Rightarrow> True | Response r \<Rightarrow> status_code r \<noteq> 200"
  shows "fst (direct_loop net fa us log) = Inr JNull"
proof (induction us arbitrary: log)
  case Nil
  show ?case by (simp add: ret_def)
next
  case (Cons u us)
  show ?case
  proof (cases "net log (direct_get u)")
    case (Raises e)
    then show ?thesis
      using Cons.IH [of "log @ [direct_get u]"] by (simp add: eval_prog)
  next
    case (Response r)
    with assms [rule_format, of log "direct_get u"]
    have "status_code r \<noteq> 200" by simp
    with Response show ?thesis
      using Cons.IH [of "log @ [direct_get u]"] by (simp add: eval_prog)
  qed
qed

lemma extract_version_missing:
  "extract_version_from_api_response JNull = Inr JNull"
  "extract_version_from_api_response (JObj []) = Inr JNull"
  "extract_version_from_api_response (JObj [(''data'', JArr [])]) = Inr JNull"
  by (simp_all add: extract_version_from_api_response_def and_then_def)

lemma extract_version_no_firmwares:
  assumes "map_of body ''data'' = Some (JArr (JObj product # others))"
    and "map_of product ''firmwares'' = None \<or> map_of product ''firmwares'' = Some (JArr [])"
  shows "extract_version_from_api_response (JObj body) = Inr JNull"
proof -
  have "body \<noteq> []"
    using assms(1) by auto
  moreover have "''data'' \<in> fst ` set body"
    using assms(1) by (rule map_of_Some_key)
  ultimately show ?thesis
    using assms
    by (auto simp: extract_version_from_api_response_def and_then_def map_of_eq_None_iff
        dest: map_of_Some_key)
qed

text \<open>
  What each strategy makes of the answers of the network: every exception, of the
  request, of the decoding or of the extraction, becomes \<^verbatim>\<open>None\<close>, or in the loop over
  the download pages the move to the next page.
\<close>

lemma get_reolink_firmware_api_result:
  "get_reolink_firmware_api net product_id hardware_id log =
     (Inr (case net log (api_request product_id hardware_id) of
             Raises e \<Rightarrow> JNull
           | Response r \<Rightarrow>
               if status_code r = 200 then
                 (case body_json r of
                    Inl e \<Rightarrow> JNull
                  | Inr data \<Rightarrow>
                      (case extract_version_from_api_response data of
                         Inl e \<Rightarrow> JNull
                       | Inr v \<Rightarrow> v))
               else JNull),
      log @ [api_request product_id hardware_id])"
  by (simp add: get_reolink_firmware_api_def eval_prog split: reply.splits sum.splits)

lemma form_attempt_result:
  "form_attempt net fa rq log =
     (Inr (case net log rq of
             Raises e \<Rightarrow> JNull
           | Response r \<Rightarrow>
               if status_code r = 200 then
                 (case extract_version_from_html fa (body_text r) of
                    Inl e \<Rightarrow> JNull
                  | Inr v \<Rightarrow> if truthy v then v else JNull)
               else JNull),
      log @ [rq])"
  by (simp add: form_attempt_def eval_prog split: reply.splits sum.splits)

lemma simulate_form_search_result:
  "simulate_form_search net fa model hardware_version log =
     (case net log download_center_get of
        Raises e \<Rightarrow> (Inr JNull, log @ [download_center_get])
      | Response r \<Rightarrow>
          if status_code r \<noteq> 200 then (Inr JNull, log @ [download_center_get])
          else
            (case form_attempt net fa (download_center_post model hardware_version)
                    (log @ [download_center_get]) of
               (Inl e, l1) \<Rightarrow> (Inr JNull, l1)
             | (Inr v1, l1) \<Rightarrow>
                 if truthy v1 then (Inr v1, l1)
                 else
                   (case form_attempt net fa (sitesearch_get model) l1 of
                      (Inl e, l2) \<Rightarrow> (Inr JNull, l2)
                    | (Inr v2, l2) \<Rightarrow> (Inr (if truthy v2 then v2 else JNull), l2))))"
  by (simp add: simulate_form_search_def eval_prog split: reply.splits sum.splits prod.splits)

lemma direct_loop_result:
  "direct_loop net fa (u # us) log =
     (case net log (direct_get u) of
        Raises e \<Rightarrow> direct_loop net fa us (log @ [direct_get u])
      | Response r \<Rightarrow>
          if status_code r = 200 then
            (case first_match fa (body_text r) direct_patterns of
               None \<Rightarrow> direct_loop net fa us (log @ [direct_get u])
             | Some m \<Rightarrow> (Inr (JStr m), log @ [direct_get u]))
          else direct_loop net fa us (log @ [direct_get u]))"
  by (simp add: eval_prog split: reply.splits option.splits)

lemma resolver_returns:
  "(\<exists>v log'. search_firmware net fa model hardware_version log = (Inr v, log')
       \<and> (truthy v \<or> v = JNull))
   \<and> (\<exists>v log'. get_reolink_firmware_api net product_id hardware_id log = (Inr v, log'))
   \<and> (\<exists>v log'. simulate_form_search net fa model hardware_version log = (Inr v, log'))
   \<and> (\<exists>v log'. try_direct_download_page net fa model log = (Inr v, log'))
   \<and> extract_version_from_api_response JNull = Inr JNull
   \<and> extract_version_from_api_response (JObj []) = Inr JNull
   \<and> extract_version_from_api_response (JObj [(''data'', JArr [])]) = Inr JNull
   \<and> (map_of body ''data'' = Some (JArr (JObj product # others))
        \<and> (map_of product ''firmwares'' = None \<or> map_of product ''firmwares'' = Some (JArr []))
      \<longrightarrow> extract_version_from_api_response (JObj body) = Inr JNull)
   \<and> ((\<forall>l rq. case net l rq of Raises e \<Rightarrow> True | Response r \<Rightarrow> status_code r \<noteq> 200)
      \<longrightarrow> fst (search_firmware net fa model hardware_version log) = Inr JNull)"
proof (intro conjI impI)
  from search_firmware_stages [of model hardware_version net log fa]
  obtain v1 l1 v2 l2 v3 l3 where
    "search_firmware net fa model hardware_version log =
        (if truthy v1 then (Inr v1, l1)
         else if truthy v2 then (Inr v2, l2)
         else if truthy v3 then (Inr v3, l3)
         else (Inr JNull, l3))"
    by blast
  then show "\<exists>v log'. search_firmware net fa model hardware_version log = (Inr v, log')
       \<and> (truthy v \<or> v = JNull)"
    by (cases "truthy v1"; cases "truthy v2"; cases "truthy v3") auto
next
  show "\<exists>v log'. get_reolink_firmware_api net product_id hardware_id log = (Inr v, log')"
    using get_reolink_firmware_api_returns by blast
next
  show "\<exists>v log'. simulate_form_search net fa model hardware_version log = (Inr v, log')"
    using simulate_form_search_returns by blast
next
  show "\<exists>v log'. try_direct_download_page net fa model log = (Inr v, log')"
    using try_direct_download_page_returns by blast
next
  assume "map_of body ''data'' = Some (JArr (JObj product # others))
        \<and> (map_of product ''firmwares'' = None \<or> map_of product ''firmwares'' = Some (JArr []))"
  then show "extract_version_from_api_response (JObj body) = Inr JNull"
    by (blast intro: extract_version_no_firmwares)
next
  assume down: "\<forall>l rq. case net l rq of Raises e \<Rightarrow> True | Response r \<Rightarrow> status_code r \<noteq> 200"
  from search_firmware_stages [of model hardware_version net log fa]
  obtain v1 l1 v2 l2 v3 l3 where
    s1: "if model = ''RLN8-410'' \<and> hardware_version = ''N2MB02''
        then get_reolink_firmware_api net 33 231 log = (Inr v1, l1)
           \<and> l1 = log @ [api_request 33 231]
        else v1 = JNull \<and> l1 = log"
    and s2: "simulate_form_search net fa model hardware_version l1 = (Inr v2, l2)"
    and s3: "try_direct_download_page net fa model l2 = (Inr v3, l3)"
    and res: "search_firmware net fa model hardware_version log =
        (if truthy v1 then (Inr v1, l1)
         else if truthy v2 then (Inr v2, l2)
         else if truthy v3 then (Inr v3, l3)
         else (Inr JNull, l3))"
    by blast
  have "v1 = JNull"
    using s1 api_without_page [OF down, of 33 231 log]
    by (cases "model = ''RLN8-410'' \<and> hardware_version = ''N2MB02''") simp_all
  moreover have "v2 = JNull"
    using s2 form_search_without_page [OF down, of fa model hardware_version l1] by simp
  moreover have "v3 = JNull"
    using s3 direct_loop_without_page [OF down, of fa "direct_urls model" l2]
    by (simp add: try_direct_download_page_def)
  ultimately show "fst (search_firmware net fa model hardware_version log) = Inr JNull"
    using res by simp
qed (rule extract_version_missing)+


text \<open>
  C6.  The resolver returns a value on every input, and so does each of its three
  strategies.  An exception of a request, of the decoding of the body or of the
  extraction ends inside the strategy and counts as no result: the API step and an
  attempt of the form simulation then give \<^verbatim>\<open>None\<close>, the loop over the download pages
  moves on to the next page and gives \<^verbatim>\<open>None\<close> after the last one.  The extraction
  itself returns \<^verbatim>\<open>None\<close> on \<^verbatim>\<open>None\<close>, on an empty object, on an empty \<^verbatim>\<open>data\<close> list
  and on a first product whose \<^verbatim>\<open>firmwares\<close> is missing or empty.  The resolver
  returns the first truthy result of its three strategies and \<^verbatim>\<open>None\<close> when none of
  them has one, as when no request is answered with a page.
\<close>

theorem resolver_never_raises:
  "((\<exists>v log'. search_firmware net fa model hardware_version log = (Inr v, log')
       \<and> (truthy v \<or> v = JNull))
   \<and> (\<exists>v log'. get_reolink_firmware_api net product_id hardware_id log = (Inr v, log'))
   \<and> (\<exists>v log'. simulate_form_search net fa model hardware_version log = (Inr v, log'))
   \<and> (\<exists>v log'. try_direct_download_page net fa model log = (Inr v, log'))
   \<and> extract_version_from_api_response JNull = Inr JNull
   \<and> extract_version_from_api_response (JObj []) = Inr JNull
   \<and> extract_version_from_api_response (JObj [(''data'', JArr [])]) = Inr JNull
   \<and> (map_of body ''data'' = Some (JArr (JObj product # others))
        \<and> (map_of product ''firmwares'' = None \<or> map_of product ''firmwares'' = Some (JArr []))
      \<longrightarrow> extract_version_from_api_response (JObj body) = Inr JNull)
   \<and> ((\<forall>l rq. case net l rq of Raises e \<Rightarrow> True | Response r \<Rightarrow> status_code r \<noteq> 200)
      \<longrightarrow> fst (search_firmware net fa model hardware_version log) = Inr JNull))
   \<and> (\<exists>v1 l1 v2 l2 v3 l3 f d.
         get_product_and_hardware_ids model hardware_version =
           (if model = ''RLN8-410'' \<and> hardware_version = ''N2MB02''
            then (Some 33, Some 231) else (None, None))
       \<and> (if model = ''RLN8-410'' \<and> hardware_version = ''N2MB02''
           then get_reolink_firmware_api net 33 231 log = (Inr v1, l1)
              \<and> l1 = log @ [api_request 33 231]
           else v1 = JNull \<and> l1 = log)
       \<and> simulate_form_search net fa model hardware_version l1 = (Inr v2, l2)
       \<and> l2 = l1 @ f \<and> f \<noteq> [] \<and> prefix f (form_requests model hardware_version)
       \<and> try_direct_download_page net fa model l2 = (Inr v3, l3)
       \<and> l3 = l2 @ d \<and> prefix d (map direct_get (direct_urls model))
       \<and> search_firmware net fa model hardware_version log =
           (if truthy v1 then (Inr v1, l1)
            else if truthy v2 then (Inr v2, l2)
            else if truthy v3 then (Inr v3, l3)
            else (Inr JNull, l3)))
   \<and> get_reolink_firmware_api net product_id hardware_id log =
       (Inr (case net log (api_request product_id hardware_id) of
               Raises e \<Rightarrow> JNull
             | Response r \<Rightarrow>
                 if status_code r = 200 then
                   (case body_json r of
                      Inl e \<Rightarrow> JNull
                    | Inr data \<Rightarrow>
                        (case extract_version_from_api_response data of
                           Inl e \<Rightarrow> JNull
                         | Inr v \<Rightarrow> v))
                 else JNull),
        log @ [api_request product_id hardware_id])
   \<and> form_attempt net fa rq log =
       (Inr (case net log rq of
               Raises e \<Rightarrow> JNull
             | Response r \<Rightarrow>
                 if status_code r = 200 then
                   (case extract_version_from_html fa (body_text r) of
                      Inl e \<Rightarrow> JNull
                    | Inr v \<Rightarrow> if truthy v then v else JNull)
                 else JNull),
        log @ [rq])
   \<and> simulate_form_search net fa model hardware_version log =
       (case net log download_center_get of
          Raises e \<Rightarrow> (Inr JNull, log @ [download_center_get])
        | Response r \<Rightarrow>
            if status_code r \<noteq> 200 then (Inr JNull, log @ [download_center_get])
            else
              (case form_attempt net fa (download_center_post model hardware_version)
                      (log @ [download_center_get]) of
                 (Inl e, l1) \<Rightarrow> (Inr JNull, l1)
               | (Inr v1, l1) \<Rightarrow>
                   if truthy v1 then (Inr v1, l1)
                   else
                     (case form_attempt net fa (sitesearch_get model) l1 of
                        (Inl e, l2) \<Rightarrow> (Inr JNull, l2)
                      | (Inr v2, l2) \<Rightarrow> (Inr (if truthy v2 then v2 else JNull), l2))))
   \<and> direct_loop net fa [] log = (Inr JNull, log)
   \<and> direct_loop net fa (u # us) log =
       (case net log (direct_get u) of
          Raises e \<Rightarrow> direct_loop net fa us (log @ [direct_get u])
        | Response r \<Rightarrow>
            if status_code r = 200 then
              (case first_match fa (body_text r) direct_patterns of
                 None \<Rightarrow> direct_loop net fa us (log @ [direct_get u])
               | Some m \<Rightarrow> (Inr (JStr m), log @ [direct_get u]))
            else direct_loop net fa us (log @ [direct_get u]))
   \<and> try_direct_download_page net fa model log = direct_loop net fa (direct_urls model) log"
proof (rule conjI)
  show "(\<exists>v log'. search_firmware net fa model hardware_version log = (Inr v, log')
       \<and> (truthy v \<or> v = JNull))
   \<and> (\<exists>v log'. get_reolink_firmware_api net product_id hardware_id log = (Inr v, log'))
   \<and> (\<exists>v log'. simulate_form_search net fa model hardware_version log = (Inr v, log'))
   \<and> (\<exists>v log'. try_direct_download_page net fa model log = (Inr v, log'))
   \<and> extract_version_from_api_response JNull = Inr JNull
   \<and> extract_version_from_api_response (JObj []) = Inr JNull
   \<and> extract_version_from_api_response (JObj [(''data'', JArr [])]) = Inr JNull
   \<and> (map_of body ''data'' = Some (JArr (JObj product # others))
        \<and> (map_of product ''firmwares'' = None \<or> map_of product ''firmwares'' = Some (JArr []))
      \<longrightarrow> extract_version_from_api_response (JObj body) = Inr JNull)
   \<and> ((\<forall>l rq. case net l rq of Raises e \<Rightarrow> True | Response r \<Rightarrow> status_code r \<noteq> 200)
      \<longrightarrow> fst (search_firmware net fa model hardware_version log) = Inr JNull)"
    by (rule resolver_returns)
next
  have empty: "direct_loop net fa [] log = (Inr JNull, log)"
    by (simp add: ret_def)
  have page: "try_direct_download_page net fa model log = direct_loop net fa (direct_urls model) log"
    by (simp add: try_direct_download_page_def)
  note rest = search_firmware_stages [of model hardware_version net log fa]
    get_reolink_firmware_api_result [of net product_id hardware_id log]
    form_attempt_result [of net fa rq log]
    simulate_form_search_result [of net fa model hardware_version log]
    empty
    direct_loop_result [of net fa u us log]
    page
  show "(\<exists>v1 l1 v2 l2 v3 l3 f d.
         get_product_and_hardware_ids model hardware_version =
           (if model = ''RLN8-410'' \<and> hardware_version = ''N2MB02''
            then (Some 33, Some 231) else (None, None))
       \<and> (if model = ''RLN8-410'' \<and> hardware_version = ''N2MB02''
           then get_reolink_firmware_api net 33 231 log = (Inr v1, l1)
              \<and> l1 = log @ [api_request 33 231]
           else v1 = JNull \<and> l1 = log)
       \<and> simulate_form_search net fa model hardware_version l1 = (Inr v2, l2)
       \<and> l2 = l1 @ f \<and> f \<noteq> [] \<and> prefix f (form_requests model hardware_version)
       \<and> try_direct_download_page net fa model l2 = (Inr v3, l3)
       \<and> l3 = l2 @ d \<and> prefix d (map direct_get (direct_urls model))
       \<and> search_firmware net fa model hardware_version log =
           (if truthy v1 then (Inr v1, l1)
            else if truthy v2 then (Inr v2, l2)
            else if truthy v3 then (Inr v3, l3)
            else (Inr JNull, l3)))
   \<and> get_reolink_firmware_api net product_id hardware_id log =
       (Inr (case net log (api_request product_id hardware_id) of
               Raises e \<Rightarrow> JNull
             | Response r \<Rightarrow>
                 if status_code r = 200 then
                   (case body_json r of
                      Inl e \<Rightarrow> JNull
                    | Inr data \<Rightarrow>
                        (case extract_version_from_api_response data of
                           Inl e \<Rightarrow> JNull
                         | Inr v \<Rightarrow> v))
                 else JNull),
        log @ [api_request product_id hardware_id])
   \<and> form_attempt net fa rq log =
       (Inr (case net log rq of
               Raises e \<Rightarrow> JNull
             | Response r \<Rightarrow>
                 if status_code r = 200 then
                   (case extract_version_from_html fa (body_text r) of
                      Inl e \<Rightarrow> JNull
                    | Inr v \<Rightarrow> if truthy v then v else JNull)
                 else JNull),
        log @ [rq])
   \<and> simulate_form_search net fa model hardware_version log =
       (case net log download_center_get of
          Raises e \<Rightarrow> (Inr JNull, log @ [download_center_get])
        | Response r \<Rightarrow>
            if status_code r \<noteq> 200 then (Inr JNull, log @ [download_center_get])
            else
              (case form_attempt net fa (download_center_post model hardware_version)
                      (log @ [download_center_get]) of
                 (Inl e, l1) \<Rightarrow> (Inr JNull, l1)
               | (Inr v1, l1) \<Rightarrow>
                   if truthy v1 then (Inr v1, l1)
                   else
                     (case form_attempt net fa (sitesearch_get model) l1 of
                        (Inl e, l2) \<Rightarrow> (Inr JNull, l2)
                      | (Inr v2, l2) \<Rightarrow> (Inr (if truthy v2 then v2 else JNull), l2))))
   \<and> direct_loop net fa [] log = (Inr JNull, log)
   \<and> direct_loop net fa (u # us) log =
       (case net log (direct_get u) of
          Raises e \<Rightarrow> direct_loop net fa us (log @ [direct_get u])
        | Response r \<Rightarrow>
            if status_code r = 200 then
              (case first_match fa (body_text r) direct_patterns of
                 None \<Rightarrow> direct_loop net fa us (log @ [direct_get u])
               | Some m \<Rightarrow> (Inr (JStr m), log @ [direct_get u]))
            else direct_loop net fa us (log @ [direct_get u]))
   \<and> try_direct_download_page net fa model log = direct_loop net fa (direct_urls model) log"
    by (intro conjI rest)
qed

theorem resolver_never_raises_witness:
  "get_reolink_firmware_api net_down 33 231 [] = (Inr JNull, [api_request 33 231])
   \<and> get_reolink_firmware_api (net_serving []) 33 231 [] = (Inr JNull, [api_request 33 231])
   \<and> extract_version_from_api_response (JNum 5) = Inl TypeError
   \<and> get_reolink_firmware_api (net_json (JNum 5)) 33 231 [] = (Inr JNull, [api_request 33 231])
   \<and> get_reolink_firmware_api net_api 33 231 [] =
       (Inr (JStr ''v3.5.1.368_25010326''), [api_request 33 231])
   \<and> form_attempt net_down findall_pages (sitesearch_get ''RLN8-410'') [] =
       (Inr JNull, [sitesearch_get ''RLN8-410''])
   \<and> simulate_form_search net_down findall_pages ''RLN8-410'' ''N2MB02'' [] =
       (Inr JNull, [download_center_get])
   \<and> direct_loop net_down findall_pages [api_url] [] = (Inr JNull, [direct_get api_url])
   \<and> extract_version_from_api_response
        (JObj [(''data'', JArr [JObj [(''title'', JStr ''RLN8-410 (NVR)'')]])]) = Inr JNull
   \<and> fst (search_firmware net_down findall_pages ''RLN8-410'' ''N2MB02'' []) = Inr JNull"
proof -
  let ?product = "[(''title'', JStr ''RLN8-410 (NVR)'')]"
  let ?body = "[(''data'', JArr [JObj ?product])]"
  note down = resolver_never_raises
    [where net = net_down and fa = findall_pages and model = "''RLN8-410''"
       and hardware_version = "''N2MB02''" and log = "[]"
       and body = ?body and product = ?product and others = "[]"
       and product_id = 33 and hardware_id = 231 and rq = "sitesearch_get ''RLN8-410''"
       and u = api_url and us = "[]"]
  have a1: "get_reolink_firmware_api net_down 33 231 [] = (Inr JNull, [api_request 33 231])"
    using resolver_never_raises
        [where net = net_down and product_id = 33 and hardware_id = 231 and log = "[]", THEN third]
    by (simp add: net_down_def)
  have a2: "get_reolink_firmware_api (net_serving []) 33 231 [] = (Inr JNull, [api_request 33 231])"
    using resolver_never_raises
        [where net = "net_serving []" and product_id = 33 and hardware_id = 231 and log = "[]", THEN third]
    by (simp add: net_serving_def)
  have a3: "extract_version_from_api_response (JNum 5) = Inl TypeError"
    by (simp add: extract_version_from_api_response_def and_then_def)
  have a4: "get_reolink_firmware_api (net_json (JNum 5)) 33 231 [] = (Inr JNull, [api_request 33 231])"
    using resolver_never_raises
        [where net = "net_json (JNum 5)" and product_id = 33 and hardware_id = 231 and log = "[]", THEN third]
    a3 by (simp add: net_json_def)
  have "extract_version_from_api_response mock_response = Inr (JStr ''v3.5.1.368_25010326'')"
    by (simp add: eval_extract mock_response_def)
  then have a5: "get_reolink_firmware_api net_api 33 231 [] =
       (Inr (JStr ''v3.5.1.368_25010326''), [api_request 33 231])"
    using resolver_never_raises
        [where net = net_api and product_id = 33 and hardware_id = 231 and log = "[]", THEN third]
    by (simp add: net_api_def api_request_def)
  have f1: "form_attempt net_down findall_pages (sitesearch_get ''RLN8-410'') [] =
       (Inr JNull, [sitesearch_get ''RLN8-410''])"
    using down [THEN fourth] by (simp add: net_down_def)
  have f2: "simulate_form_search net_down findall_pages ''RLN8-410'' ''N2MB02'' [] =
       (Inr JNull, [download_center_get])"
    using down [THEN fifth] by (simp add: net_down_def)
  have d1: "direct_loop net_down findall_pages [api_url] [] = (Inr JNull, [direct_get api_url])"
    using down [THEN seventh] resolver_never_raises [where net = net_down and fa = findall_pages
        and log = "[direct_get api_url]", THEN sixth]
    by (simp add: net_down_def)
  have h: "map_of ?body ''data'' = Some (JArr (JObj ?product # []))
      \<and> (map_of ?product ''firmwares'' = None \<or> map_of ?product ''firmwares'' = Some (JArr []))"
    by simp
  note c1 = down [THEN conjunct1, THEN eighth, THEN mp, OF h]
  have "\<forall>l rq. case net_down l rq of Raises e \<Rightarrow> True | Response r \<Rightarrow> status_code r \<noteq> 200"
    by (simp add: net_down_def)
  note c2 = down [THEN conjunct1, THEN conjunct2, THEN conjunct2, THEN conjunct2, THEN conjunct2,
      THEN conjunct2, THEN conjunct2, THEN conjunct2, THEN conjunct2, THEN mp, OF this]
  from a1 a2 a3 a4 a5 f1 f2 d1 c1 c2 show ?thesis by (intro conjI)
qed

section \<open>The automatic check\<close>

text \<open>
  C7, amended.  When the configuration holds a model, a hardware version and a current
  version, none of them empty, the program started without arguments exits with
  status 1 exactly when the resolver finds a latest version and \<open>compare_versions\<close>
  reports an update for it, and with status 0 otherwise, a failed lookup included.
  When one of the three is missing or empty, it exits with status 1 and makes no
  request.
\<close>

theorem main_exit_status:
  "(device_config ''model'' = Some model
      \<and> device_config ''hardware_version'' = Some hardware_version
      \<and> device_config ''current_firmware_version'' = Some current_version
      \<and> model \<noteq> [] \<and> hardware_version \<noteq> [] \<and> current_version \<noteq> []
    \<longrightarrow> (\<exists>latest log'.
           search_firmware net fa model hardware_version log = (Inr latest, log')
         \<and> main net fa device_config log =
             (Inr (if truthy latest \<and> fst (compare_versions current_version latest)
                   then 1 else 0), log')))
   \<and> (\<not> (present (device_config ''model'') \<and> present (device_config ''hardware_version'')
           \<and> present (device_config ''current_firmware_version''))
      \<longrightarrow> main net fa device_config log = (Inr 1, log))
   \<and> (present (device_config key) = (\<exists>s. device_config key = Some s \<and> s \<noteq> []))"
proof (intro conjI impI)
  assume a: "device_config ''model'' = Some model
      \<and> device_config ''hardware_version'' = Some hardware_version
      \<and> device_config ''current_firmware_version'' = Some current_version
      \<and> model \<noteq> [] \<and> hardware_version \<noteq> [] \<and> current_version \<noteq> []"
  from search_firmware_stages [of model hardware_version net log fa]
  obtain latest log' where
    s: "search_firmware net fa model hardware_version log = (Inr latest, log')"
    by (metis (full_types))
  have "main net fa device_config log =
      (Inr (if truthy latest \<and> fst (compare_versions current_version latest) then 1 else 0), log')"
    using a s by (simp add: main_def present_def check_for_updates_def bnd_def ret_def)
  with s show "\<exists>latest log'.
           search_firmware net fa model hardware_version log = (Inr latest, log')
         \<and> main net fa device_config log =
             (Inr (if truthy latest \<and> fst (compare_versions current_version latest)
                   then 1 else 0), log')"
    by blast
next
  assume "\<not> (present (device_config ''model'') \<and> present (device_config ''hardware_version'')
           \<and> present (device_config ''current_firmware_version''))"
  then show "main net fa device_config log = (Inr 1, log)"
    by (simp add: main_def Let_def ret_def)
next
  show "present (device_config key) = (\<exists>s. device_config key = Some s \<and> s \<noteq> [])"
    by (simp add: present_def split: option.splits)
qed

lemmas eval_main =
  older_config_def empty_config_def main_def present_def check_for_updates_def

theorem main_exit_status_witness:
  "main net_api findall_pages older_config [] = (Inr 1, [api_request 33 231])
   \<and> \<not> present (model_only_config ''hardware_version'')
   \<and> main net_api findall_pages model_only_config [] = (Inr 1, [])"
proof -
  have c: "older_config ''model'' = Some ''RLN8-410''
      \<and> older_config ''hardware_version'' = Some ''N2MB02''
      \<and> older_config ''current_firmware_version'' = Some ''v3.5.1.368_25010324''
      \<and> ''RLN8-410'' \<noteq> [] \<and> ''N2MB02'' \<noteq> [] \<and> ''v3.5.1.368_25010324'' \<noteq> []"
    by (simp add: older_config_def)
  from main_exit_status [where device_config = older_config and net = net_api
      and fa = findall_pages and log = "[]", THEN conjunct1, THEN mp, OF c]
  obtain latest log' where
    s: "search_firmware net_api findall_pages ''RLN8-410'' ''N2MB02'' [] = (Inr latest, log')"
    and m: "main net_api findall_pages older_config [] =
             (Inr (if truthy latest \<and> fst (compare_versions ''v3.5.1.368_25010324'' latest)
                   then 1 else 0), log')"
    by blast
  have "search_firmware net_api findall_pages ''RLN8-410'' ''N2MB02'' [] =
       (Inr (JStr ''v3.5.1.368_25010326''), [api_request 33 231])"
    by (simp add: search_firmware_def get_product_and_hardware_ids_table eval_api eval_prog
        eval_extract)
  with s have l: "latest = JStr ''v3.5.1.368_25010326''" and l': "log' = [api_request 33 231]"
    by simp_all
  have "fst (compare_versions ''v3.5.1.368_25010324'' (JStr ''v3.5.1.368_25010326''))"
    by (simp add: compare_versions_def eval_version version_gt_def cmpkey_def)
  with m l l' have w1: "main net_api findall_pages older_config [] = (Inr 1, [api_request 33 231])"
    by simp
  have w2: "\<not> present (model_only_config ''hardware_version'')"
    by (simp add: model_only_config_def present_def)
  then have "\<not> (present (model_only_config ''model'')
           \<and> present (model_only_config ''hardware_version'')
           \<and> present (model_only_config ''current_firmware_version''))"
    by simp
  note w3 = main_exit_status [where device_config = model_only_config and net = net_api
      and fa = findall_pages and log = "[]", THEN second, THEN mp, OF this]
  from w1 w2 w3 show ?thesis by (intro conjI)
qed

text \<open>
  C7 as the specification states it fails on an incomplete configuration: started
  without arguments, the program exits with status 1 before any lookup, so without an
  update having been found.
\<close>

theorem main_exit_status_counterexample:
  "\<not> present (empty_config ''model'')
   \<and> main net_api findall_pages empty_config [] = (Inr 1, [])"
  by (simp add: eval_main ret_def)

section \<open>The timeouts of the requests\<close>

text \<open>
  C9.  The request to the API and the requests to the download pages carry a timeout
  of 10 seconds; the three requests of the form simulation carry none.  On a network
  that is down the resolver makes five requests for the pair of the table, of which
  the second, the first one of the form simulation, has no timeout; on a network that
  answers every request with an empty page it makes six for an unknown pair, of which
  the first three, those of the form simulation, have none.
\<close>

theorem form_search_without_timeout:
  "map timeout (snd (search_firmware net_down findall_pages ''RLN8-410'' ''N2MB02'' [])) =
     [Some 10, None, Some 10, Some 10, Some 10]
   \<and> map timeout (snd (search_firmware (net_serving []) findall_pages
        ''UNKNOWN_MODEL'' ''UNKNOWN_HW'' [])) =
     [None, None, None, Some 10, Some 10, Some 10]
   \<and> timeout (api_request product_id hardware_id) = Some 10
   \<and> timeout (direct_get u) = Some 10
   \<and> map timeout (form_requests model hardware_version) = [None, None, None]"
  by (simp add: search_firmware_def get_product_and_hardware_ids_table eval_api eval_prog
      eval_strategies eval_pages direct_get_def download_center_get_def download_center_post_def
      sitesearch_get_def form_requests_def)

end
